(* ===== verification/FS_Prelude.thy ===== *)
theory FS_Prelude
  imports Main "HOL-Library.Sublist" "HOL-Library.AList"
begin

text \<open>
  Shared vocabulary of the development: the JavaScript values that cross the
  boundary of \<^verbatim>\<open>src/fs.js\<close> (argument values, option objects, the
  info objects of the host), the exceptions a JavaScript function can throw
  (as the left side of a sum), the \<open>try\<close>/\<open>catch\<close> re-throw pattern of the
  facade, JavaScript default parameters, and the generic lemmas on these and on
  association lists and path prefixes that the component theories share.
\<close>

named_theorems fs_simps "evaluation rules of the file-system model"

section \<open>JavaScript values and objects\<close>

datatype jsval =
    JUndefined
  | JNull
  | JBool bool
  | JNum nat
  | JStr string
  | JObj "(string \<times> jsval) list"

type_synonym jsobj = "(string \<times> jsval) list"

text \<open>Reading a property of a plain object: a missing property reads \<open>undefined\<close>.\<close>

definition js_get :: "jsobj \<Rightarrow> string \<Rightarrow> jsval" where
  "js_get obj k = (case map_of obj k of None \<Rightarrow> JUndefined | Some v \<Rightarrow> v)"

text \<open>JavaScript exceptions: an \<open>Error\<close> or a \<open>TypeError\<close>, each with its message.\<close>

datatype exn = Err string | TypeErr string

primrec message :: "exn \<Rightarrow> string" where
  "message (Err m) = m"
| "message (TypeErr m) = m"

text \<open>
  Property access \<open>v.k\<close> on any value: on \<open>undefined\<close> and \<open>null\<close> it
  throws a \<open>TypeError\<close>; on an object it reads the property; a string has its
  \<open>length\<close>; any other property of a primitive is \<open>undefined\<close>.
\<close>

text \<open>A property name in single quotes, as the engine prints it in messages.\<close>

definition quoted :: "string \<Rightarrow> string" where
  "quoted k = CHR 0x27 # k @ [CHR 0x27]"

fun js_prop :: "jsval \<Rightarrow> string \<Rightarrow> exn + jsval" where
  "js_prop JUndefined k =
     Inl (TypeErr (''Cannot read properties of undefined (reading '' @ quoted k @ '')''))"
| "js_prop JNull k =
     Inl (TypeErr (''Cannot read properties of null (reading '' @ quoted k @ '')''))"
| "js_prop (JObj obj) k = Inr (js_get obj k)"
| "js_prop (JStr s) k = Inr (if k = ''length'' then JNum (length s) else JUndefined)"
| "js_prop (JBool b) k = Inr JUndefined"
| "js_prop (JNum n) k = Inr JUndefined"

text \<open>A default parameter \<open>(x = d) =>\<close> takes \<open>d\<close> only when the argument is \<open>undefined\<close>.\<close>

definition default_param :: "jsval \<Rightarrow> jsval \<Rightarrow> jsval" where
  "default_param v d = (if v = JUndefined then d else v)"

section \<open>Exceptions as values\<close>

text \<open>Sequencing of two computations that may throw: the first exception wins.\<close>

definition ebind :: "'e + 'a \<Rightarrow> ('a \<Rightarrow> 'e + 'b) \<Rightarrow> 'e + 'b" where
  "ebind r f = (case r of Inl e \<Rightarrow> Inl e | Inr x \<Rightarrow> f x)"

text \<open>
  The facade's \<open>try { ... } catch (error) { throw new Error(`<prefix>${error.message}`) }\<close>:
  a result passes unchanged, an exception is replaced by a fresh \<open>Error\<close> whose
  message is the prefix followed by the caught message.
\<close>

definition rethrow :: "string \<Rightarrow> exn + 'a \<Rightarrow> exn + 'a" where
  "rethrow pre r = (case r of Inl e \<Rightarrow> Inl (Err (pre @ message e)) | Inr x \<Rightarrow> Inr x)"

lemma ebind_simps [simp, fs_simps]:
  "ebind (Inl e) f = Inl e"
  "ebind (Inr x) f = f x"
  by (simp_all add: ebind_def)

lemma ebind_eq_Inr [simp]:
  "ebind r f = Inr y \<longleftrightarrow> (\<exists>x. r = Inr x \<and> f x = Inr y)"
  by (cases r) auto

lemma ebind_eq_Inl:
  "ebind r f = Inl e \<longleftrightarrow> r = Inl e \<or> (\<exists>x. r = Inr x \<and> f x = Inl e)"
  by (cases r) auto

lemma rethrow_simps [simp, fs_simps]:
  "rethrow pre (Inl e) = Inl (Err (pre @ message e))"
  "rethrow pre (Inr x) = Inr x"
  by (simp_all add: rethrow_def)

lemma rethrow_eq_Inr [simp]: "rethrow pre r = Inr x \<longleftrightarrow> r = Inr x"
  by (cases r) auto

lemma rethrow_eq_Inl:
  "rethrow pre r = Inl e \<longleftrightarrow> (\<exists>e'. r = Inl e' \<and> e = Err (pre @ message e'))"
  by (cases r) auto

lemma default_param_simps [simp, fs_simps]:
  "default_param JUndefined d = d"
  "v \<noteq> JUndefined \<Longrightarrow> default_param v d = v"
  by (simp_all add: default_param_def)

lemma js_get_Cons [simp, fs_simps]:
  "js_get ((k', v) # obj) k = (if k = k' then v else js_get obj k)"
  "js_get [] k = JUndefined"
  by (simp_all add: js_get_def)

section \<open>Association lists and path prefixes\<close>

lemma map_of_filter_key:
  "map_of (filter (\<lambda>(q, _). P q) xs) k = (if P k then map_of xs k else None)"
  by (induction xs) auto

lemma distinct_map_fst_filter:
  "distinct (map fst xs) \<Longrightarrow> distinct (map fst (filter P xs))"
  by (induction xs) auto

lemma map_of_append_Some_iff:
  "map_of (xs @ ys) k = Some v \<longleftrightarrow>
     map_of xs k = Some v \<or> (map_of xs k = None \<and> map_of ys k = Some v)"
  by (auto simp: map_add_Some_iff)

text \<open>The proper ancestors of a path, the root first.\<close>

primrec ancestors :: "'a list \<Rightarrow> 'a list list" where
  "ancestors [] = []"
| "ancestors (x # xs) = [] # map ((#) x) (ancestors xs)"

lemma in_set_ancestors [simp]: "a \<in> set (ancestors p) \<longleftrightarrow> strict_prefix a p"
proof (induction p arbitrary: a)
  case Nil
  then show ?case by simp
next
  case (Cons x xs)
  then show ?case by (cases a) auto
qed

lemma strict_prefix_butlast:
  "p \<noteq> [] \<Longrightarrow> strict_prefix a p \<longleftrightarrow> a = butlast p \<or> strict_prefix a (butlast p)"
  by (metis append_butlast_last_id prefix_order.dual_order.strict_iff_not
      prefix_order.dual_order.strict_iff_order prefix_snoc strict_prefixI')

lemma butlast_strict_prefix: "p \<noteq> [] \<Longrightarrow> strict_prefix (butlast p) p"
  by (metis append_butlast_last_id strict_prefixI')

lemma strict_prefix_append_Cons:
  "(strict_prefix b q \<and> prefix q (b @ s # r)) \<longleftrightarrow>
     q = b @ [s] \<or> (strict_prefix (b @ [s]) q \<and> prefix q (b @ s # r))"
proof
  assume "strict_prefix b q \<and> prefix q (b @ s # r)"
  then obtain z where q: "q = b @ z" and z: "z \<noteq> []" and zr: "prefix z (s # r)"
    by (auto elim!: strict_prefixE' simp: prefix_def)
  then obtain z' where "z = s # z'" by (cases z) auto
  with q zr show "q = b @ [s] \<or> (strict_prefix (b @ [s]) q \<and> prefix q (b @ s # r))"
    by (cases z') (auto simp: strict_prefix_def)
next
  assume "q = b @ [s] \<or> (strict_prefix (b @ [s]) q \<and> prefix q (b @ s # r))"
  then show "strict_prefix b q \<and> prefix q (b @ s # r)"
  proof
    assume "q = b @ [s]"
    then show ?thesis by (simp add: strict_prefix_def)
  next
    assume a: "strict_prefix (b @ [s]) q \<and> prefix q (b @ s # r)"
    have "strict_prefix b (b @ [s])" by (simp add: strict_prefix_def)
    with a show ?thesis using prefix_order.less_trans by blast
  qed
qed

lemma map_of_map_keys_inj:
  "inj_on f (insert k (fst ` set xs)) \<Longrightarrow> map_of (map (\<lambda>(q, n). (f q, n)) xs) (f k) = map_of xs k"
proof (induction xs)
  case Nil
  then show ?case by simp
next
  case (Cons x xs)
  then show ?case by (cases x) (auto simp: inj_on_def)
qed

lemma map_of_map_keys_None:
  "q \<notin> f ` fst ` set xs \<Longrightarrow> map_of (map (\<lambda>(q, n). (f q, n)) xs) q = None"
  by (induction xs) auto

lemma map_fst_map_keys: "map fst (map (\<lambda>(q, n). (f q, n)) xs) = map f (map fst xs)"
  by (induction xs) auto

lemma update_new: "k \<notin> fst ` set al \<Longrightarrow> AList.update k v al = al @ [(k, v)]"
  by (induction al) auto

end
