(* ===== verification/Encoding.thy ===== *)
theory Encoding
  imports FS_Prelude
begin

text \<open>
  Encoding names. The facade resolves its \<open>encoding\<close> argument with
  \<^verbatim>\<open>FileSystem.EncodingType[encoding.toUpperCase()] || FileSystem.EncodingType.UTF8\<close>
  (\<^verbatim>\<open>src/fs.js\<close> lines 13, 31 and 179). This theory holds the host's
  \<open>EncodingType\<close> enumeration (an object with the keys \<open>UTF8\<close> and \<open>Base64\<close>),
  JavaScript's \<open>toUpperCase\<close> on the argument value, the resolution itself, and
  the host's base64 codec, which a read or write in the \<open>Base64\<close> encoding applies,
  with its round trip \<open>b64_decode_encode\<close>.
\<close>

section \<open>The host's encoding enumeration\<close>

datatype encoding_type = UTF8 | Base64

text \<open>\<open>FileSystem.EncodingType\<close>: the TypeScript enum \<open>{ UTF8 = 'utf8', Base64 = 'base64' }\<close>.\<close>

definition EncodingType :: "(string \<times> encoding_type) list" where
  "EncodingType = [(''UTF8'', UTF8), (''Base64'', Base64)]"

section \<open>Upper-casing\<close>

text \<open>
  \<open>String.prototype.toUpperCase\<close> on the characters of the model (bytes): the ASCII
  letters \<open>a\<close>..\<open>z\<close> become \<open>A\<close>..\<open>Z\<close>, every other character is kept.
\<close>

definition upper_char :: "char \<Rightarrow> char" where
  "upper_char c =
     (if 97 \<le> (of_char c :: nat) \<and> (of_char c :: nat) \<le> 122
      then char_of (of_char c - (32 :: nat)) else c)"

text \<open>
  \<open>encoding.toUpperCase()\<close> on any argument value: a string is upper-cased;
  reading the method of \<open>undefined\<close> or \<open>null\<close> throws a \<open>TypeError\<close>; any other
  value has no such method, and calling it throws a \<open>TypeError\<close> too.
\<close>

fun js_toUpperCase :: "jsval \<Rightarrow> exn + string" where
  "js_toUpperCase (JStr s) = Inr (map upper_char s)"
| "js_toUpperCase v =
     ebind (js_prop v ''toUpperCase'')
       (\<lambda>_. Inl (TypeErr ''encoding.toUpperCase is not a function''))"

section \<open>Resolving the encoding argument\<close>

text \<open>
  \<open>FileSystem.EncodingType[encoding.toUpperCase()] || FileSystem.EncodingType.UTF8\<close>:
  a missing key reads \<open>undefined\<close>, which is falsy, and selects \<open>UTF8\<close>.
  (No key of \<open>Object.prototype\<close> is all upper case, so the lookup sees only the two
  own keys of the enumeration.)
\<close>

definition resolve_encoding :: "jsval \<Rightarrow> exn + encoding_type" where
  "resolve_encoding encoding =
     ebind (js_toUpperCase encoding)
       (\<lambda>key. Inr (case map_of EncodingType key of Some e \<Rightarrow> e | None \<Rightarrow> UTF8))"

section \<open>The host's base64 codec\<close>

definition b64_alphabet :: string where
  "b64_alphabet = ''ABCDEFGHIJKLMNOPQRSTUVWXYZabcdefghijklmnopqrstuvwxyz0123456789+/''"

definition b64_digit :: "nat \<Rightarrow> char" where
  "b64_digit n = b64_alphabet ! (n mod 64)"

text \<open>Three bytes give four digits; a last group of two or one byte is padded with \<open>=\<close>.\<close>

fun b64_encode :: "string \<Rightarrow> string" where
  "b64_encode (a # b # c # rest) =
     (let n = of_char a * 65536 + of_char b * 256 + (of_char c :: nat)
      in map b64_digit [n div 262144, n div 4096, n div 64, n]) @ b64_encode rest"
| "b64_encode [a, b] =
     (let n = of_char a * 65536 + (of_char b :: nat) * 256
      in map b64_digit [n div 262144, n div 4096, n div 64] @ ''='')"
| "b64_encode [a] =
     (let n = (of_char a :: nat) * 65536 in map b64_digit [n div 262144, n div 4096] @ ''=='')"
| "b64_encode [] = []"

definition b64_value :: "char \<Rightarrow> nat option" where
  "b64_value c =
     (let n = (of_char c :: nat) in
      if 65 \<le> n \<and> n \<le> 90 then Some (n - 65)
      else if 97 \<le> n \<and> n \<le> 122 then Some (n - 71)
      else if 48 \<le> n \<and> n \<le> 57 then Some (n + 4)
      else if n = 43 then Some 62
      else if n = 47 then Some 63
      else None)"

text \<open>The bytes of a group of four digits, the last group possibly padded.\<close>

definition b64_quad :: "char \<Rightarrow> char \<Rightarrow> char \<Rightarrow> char \<Rightarrow> bool \<Rightarrow> string option" where
  "b64_quad a b c d is_last =
     (case (b64_value a, b64_value b) of
       (Some va, Some vb) \<Rightarrow>
         (if is_last \<and> c = CHR ''='' \<and> d = CHR ''=''
          then Some [char_of ((va * 262144 + vb * 4096) div 65536)]
          else case b64_value c of
            None \<Rightarrow> None
          | Some vc \<Rightarrow>
              (if is_last \<and> d = CHR ''=''
               then (let n = va * 262144 + vb * 4096 + vc * 64
                     in Some [char_of (n div 65536), char_of (n div 256)])
               else case b64_value d of
                 None \<Rightarrow> None
               | Some vd \<Rightarrow>
                   (let n = va * 262144 + vb * 4096 + vc * 64 + vd
                    in Some [char_of (n div 65536), char_of (n div 256), char_of n])))
     | _ \<Rightarrow> None)"

fun b64_decode :: "string \<Rightarrow> string option" where
  "b64_decode [] = Some []"
| "b64_decode [a, b, c, d] = b64_quad a b c d True"
| "b64_decode (a # b # c # d # rest) =
     (case b64_quad a b c d False of
       None \<Rightarrow> None
     | Some bs \<Rightarrow> map_option ((@) bs) (b64_decode rest))"
| "b64_decode _ = None"

text \<open>What the host stores for a string it is given, and returns for stored content.\<close>

primrec decode_content :: "encoding_type \<Rightarrow> string \<Rightarrow> string option" where
  "decode_content UTF8 s = Some s"
| "decode_content Base64 s = b64_decode s"

primrec encode_content :: "encoding_type \<Rightarrow> string \<Rightarrow> string" where
  "encode_content UTF8 s = s"
| "encode_content Base64 s = b64_encode s"

section \<open>Every string argument resolves to UTF-8\<close>

lemma upper_char_not_lower:
  "\<not> (97 \<le> (of_char (upper_char c) :: nat) \<and> (of_char (upper_char c) :: nat) \<le> 122)"
proof (cases "97 \<le> (of_char c :: nat) \<and> (of_char c :: nat) \<le> 122")
  case True
  then have "(of_char c :: nat) - 32 < 256" by linarith
  then have "((of_char c :: nat) - 32) mod 256 = of_char c - 32" by (rule mod_less)
  with True have "(of_char (upper_char c) :: nat) = of_char c - 32"
    by (simp add: upper_char_def)
  with True show ?thesis by linarith
next
  case False
  then have "upper_char c = c" unfolding upper_char_def by (rule if_not_P)
  with False show ?thesis by simp
qed

lemma upper_no_lower_a: "CHR ''a'' \<notin> set (map upper_char s)"
proof
  assume "CHR ''a'' \<in> set (map upper_char s)"
  then obtain c where "upper_char c = CHR ''a''" by auto
  with upper_char_not_lower[of c] show False by simp
qed

lemma upper_not_Base64: "map upper_char s \<noteq> ''Base64''"
  using upper_no_lower_a[of s] by auto

text \<open>
  C14: whatever string the caller passes as the encoding, the facade asks the host
  for UTF-8. Upper-casing never leaves a lower-case \<open>a\<close>, so the key
  \<open>Base64\<close> of the enumeration is never hit, and every other key falls
  back to \<open>UTF8\<close>: the base64 encoding cannot be selected.
\<close>

theorem resolve_encoding_string: "resolve_encoding (JStr s) = Inr UTF8"
  using upper_not_Base64[of s] by (simp add: resolve_encoding_def EncodingType_def)

section \<open>The base64 codec round trip\<close>

lemma b64_alphabet_codes:
  "map of_char b64_alphabet = ([65..<91] @ [97..<123] @ [48..<58] @ [43, 47::nat])"
  by (simp add: b64_alphabet_def upt_conv_Cons)

lemma length_b64_alphabet [simp]: "length b64_alphabet = 64"
  by (simp add: b64_alphabet_def)

lemma b64_code_nth:
  assumes "k < 64"
  shows "(of_char (b64_alphabet ! k) :: nat) =
           (if k < 26 then 65 + k else if k < 52 then 71 + k else if k < 62 then k - 4
            else if k = 62 then 43 else 47)"
proof -
  have "(of_char (b64_alphabet ! k) :: nat) = map of_char b64_alphabet ! k"
    using assms by simp
  also have "\<dots> = ([65..<91] @ [97..<123] @ [48..<58] @ [43, 47::nat]) ! k"
    by (simp only: b64_alphabet_codes)
  also have "\<dots> = (if k < 26 then 65 + k else if k < 52 then 71 + k else if k < 62 then k - 4
                    else if k = 62 then 43 else 47)"
  proof -
    consider "k < 26" | "26 \<le> k" "k < 52" | "52 \<le> k" "k < 62" | "k = 62" | "k = 63"
      using assms by linarith
    then show ?thesis by cases (auto simp: nth_append simp del: upt_rec_numeral)
  qed
  finally show ?thesis .
qed

lemma b64_value_nth:
  assumes "k < 64"
  shows "b64_value (b64_alphabet ! k) = Some k"
proof -
  consider "k < 26" | "26 \<le> k" "k < 52" | "52 \<le> k" "k < 62" | "k = 62" | "k = 63"
    using assms by linarith
  then show ?thesis
    by cases (auto simp: b64_value_def Let_def b64_code_nth assms)
qed

lemma b64_value_digit: "b64_value (b64_digit n) = Some (n mod 64)"
  by (simp add: b64_digit_def b64_value_nth)

lemma b64_digit_not_pad: "b64_digit n \<noteq> CHR ''=''"
  using b64_value_digit[of n] by (auto simp: b64_value_def)



lemma digits4:
  assumes "(n::nat) < 16777216"
  shows "(n div 262144) mod 64 * 262144 + (n div 4096) mod 64 * 4096 + (n div 64) mod 64 * 64 + n mod 64 = n"
proof -
  have e1: "n div 64 * 64 + n mod 64 = n" by simp
  have e2: "n div 4096 * 64 + (n div 64) mod 64 = n div 64"
    using div_mult_mod_eq[of "n div 64" 64] div_mult2_eq[of n 64 64] by simp
  have e3: "n div 262144 * 64 + (n div 4096) mod 64 = n div 4096"
    using div_mult_mod_eq[of "n div 4096" 64] div_mult2_eq[of n 4096 64] by simp
  have e4: "(n div 262144) mod 64 = n div 262144"
    using assms by (simp add: less_mult_imp_div_less)
  from e1 e2 e3 e4 show ?thesis by linarith
qed



lemma byte_div:
  assumes "(a::nat) < 256" "b < 256" "c < 256"
  shows "(a * 65536 + b * 256 + c) div 65536 = a"
  using assms by (intro div_nat_eqI) simp_all

lemma byte_mod:
  assumes "(c::nat) < 256"
  shows "(k * 256 + c) mod 256 = c"
  using assms by simp

lemma bytes3:
  assumes "(a::nat) < 256" "b < 256" "c < 256"
  shows "((a * 65536 + b * 256 + c) div 256) mod 256 = b"
    and "(a * 65536 + b * 256 + c) mod 256 = c"
    and "a * 65536 + b * 256 + c < 16777216"
proof -
  have e: "a * 65536 + b * 256 + c = (a * 256 + b) * 256 + c" by simp
  have d: "(a * 65536 + b * 256 + c) div 256 = a * 256 + b"
  proof -
    have "(a * 65536 + b * 256 + c) div 256 = ((a * 256 + b) * 256 + c) div 256" by (simp only: e)
    also have "\<dots> = a * 256 + b" using assms(3) by simp
    finally show ?thesis .
  qed
  show "((a * 65536 + b * 256 + c) div 256) mod 256 = b"
    unfolding d using byte_mod[OF assms(2), of a] .
  have "(a * 65536 + b * 256 + c) mod 256 = ((a * 256 + b) * 256 + c) mod 256" by (simp only: e)
  also have "\<dots> = c" using assms(3) by (rule byte_mod)
  finally show "(a * 65536 + b * 256 + c) mod 256 = c" .
  show "a * 65536 + b * 256 + c < 16777216" using assms by simp
qed


lemma char_of_byte: "(x::nat) mod 256 = of_char c \<Longrightarrow> char_of x = c"
  by (metis char_of_mod_256 char_of_char)

lemma of_char_bound: "(of_char c :: nat) < 256"
  by (rule nat_of_char_less_256)

lemma b64_quad_three:
  fixes a b c :: char
  defines "n \<equiv> of_char a * 65536 + of_char b * 256 + (of_char c :: nat)"
  shows "b64_quad (b64_digit (n div 262144)) (b64_digit (n div 4096)) (b64_digit (n div 64)) (b64_digit n) l =
           Some [a, b, c]"
proof -
  note bd = of_char_bound[of a] of_char_bound[of b] of_char_bound[of c]
  have N: "(n div 262144) mod 64 * 262144 + (n div 4096) mod 64 * 4096 + (n div 64) mod 64 * 64 + n mod 64 = n"
    unfolding n_def by (rule digits4, rule bytes3(3)[OF bd])
  have ca: "char_of (n div 65536) = a"
    unfolding n_def byte_div[OF bd] by (rule char_of_char)
  have cb: "char_of (n div 256) = b"
    unfolding n_def by (rule char_of_byte, rule bytes3(1)[OF bd])
  have cc: "char_of n = c"
    unfolding n_def by (rule char_of_byte, rule bytes3(2)[OF bd])
  show ?thesis
    by (simp add: b64_quad_def b64_value_digit b64_digit_not_pad N ca cb cc)
qed

lemma b64_quad_two:
  fixes a b :: char
  defines "n \<equiv> of_char a * 65536 + (of_char b :: nat) * 256"
  shows "b64_quad (b64_digit (n div 262144)) (b64_digit (n div 4096)) (b64_digit (n div 64)) (CHR ''='') True =
           Some [a, b]"
proof -
  note bd = of_char_bound[of a] of_char_bound[of b] of_char_bound[of "CHR 0x00"]
  have m: "n mod 64 = 0"
  proof -
    have "n = (of_char a * 1024 + of_char b * 4) * 64" unfolding n_def by simp
    then show ?thesis by simp
  qed
  have "(n div 262144) mod 64 * 262144 + (n div 4096) mod 64 * 4096 + (n div 64) mod 64 * 64 + n mod 64 = n"
    using bd unfolding n_def by (intro digits4) linarith
  then have N: "(n div 262144) mod 64 * 262144 + (n div 4096) mod 64 * 4096 + (n div 64) mod 64 * 64 = n"
    using m by linarith
  have ca: "char_of (n div 65536) = a"
    using byte_div[of "of_char a" "of_char b" 0] bd unfolding n_def by (simp add: char_of_char)
  have cb: "char_of (n div 256) = b"
    using bytes3(1)[of "of_char a" "of_char b" 0] bd unfolding n_def by (intro char_of_byte) simp
  show ?thesis
    by (simp add: b64_quad_def b64_value_digit b64_digit_not_pad N ca cb Let_def)
qed

lemma b64_quad_one:
  fixes a :: char
  defines "n \<equiv> (of_char a :: nat) * 65536"
  shows "b64_quad (b64_digit (n div 262144)) (b64_digit (n div 4096)) (CHR ''='') (CHR ''='') True = Some [a]"
proof -
  have bd: "(of_char a :: nat) < 256" by (rule of_char_bound)
  have m: "n mod 64 = 0" "(n div 64) mod 64 = 0"
  proof -
    have "n = (of_char a * 1024) * 64" unfolding n_def by simp
    then show "n mod 64 = 0" by simp
    have "n div 64 = (of_char a * 16) * 64" unfolding n_def by simp
    then show "(n div 64) mod 64 = 0" by simp
  qed
  have "(n div 262144) mod 64 * 262144 + (n div 4096) mod 64 * 4096 + (n div 64) mod 64 * 64 + n mod 64 = n"
    using bd unfolding n_def by (intro digits4) simp
  then have N: "(n div 262144) mod 64 * 262144 + (n div 4096) mod 64 * 4096 = n"
    using m by linarith
  have ca: "char_of (n div 65536) = a"
    unfolding n_def by (simp add: char_of_char)
  show ?thesis
    by (simp add: b64_quad_def b64_value_digit N ca)
qed

lemma b64_encode_Nil_iff: "b64_encode s = [] \<longleftrightarrow> s = []"
  by (cases s rule: b64_encode.cases) (simp_all add: Let_def)

text \<open>Decoding the encoding of any byte string gives the string back.\<close>

lemma b64_decode_encode: "b64_decode (b64_encode s) = Some s"
proof (induction s rule: b64_encode.induct)
  case (1 a b c rest)
  let ?n = "of_char a * 65536 + of_char b * 256 + (of_char c :: nat)"
  show ?case
  proof (cases "b64_encode rest")
    case Nil
    then have "rest = []" by (simp add: b64_encode_Nil_iff)
    then show ?thesis using b64_quad_three[of a b c True] by (simp add: Let_def)
  next
    case (Cons x xs)
    then show ?thesis using 1 b64_quad_three[of a b c False] by (simp add: Let_def)
  qed
next
  case (2 a b)
  then show ?case using b64_quad_two[of a b] by (simp add: Let_def)
next
  case (3 a)
  then show ?case using b64_quad_one[of a] by (simp add: Let_def)
next
  case 4
  then show ?case by simp
qed

end
