(* ===== verification/Facade.thy ===== *)
theory Facade
  imports Encoding
begin

text \<open>
  The facade object \<open>fs\<close> of \<^verbatim>\<open>src/fs.js\<close>, over any implementation of the
  \<open>FileSystem\<close> module it imports. The module is a record of its eight calls,
  each on an explicit host state \<open>'h\<close>: a query answers with a value, a command
  with the new state, and either may reject with an exception. Each method of
  \<open>fs\<close> is one definition that applies its default parameters, evaluates its
  arguments, awaits the host call and re-throws a failure with its message
  template, exactly as the source does.
  The lemmas here hold for every host; the ones that need the host's behaviour
  are in \<open>Facade_Expo\<close>.
\<close>

record 'h FileSystem =
  readAsStringAsync :: "'h \<Rightarrow> string \<Rightarrow> encoding_type \<Rightarrow> exn + string"
  writeAsStringAsync :: "'h \<Rightarrow> string \<Rightarrow> string \<Rightarrow> encoding_type \<Rightarrow> exn + 'h"
  deleteAsync :: "'h \<Rightarrow> string \<Rightarrow> exn + 'h"
  getInfoAsync :: "'h \<Rightarrow> string \<Rightarrow> bool \<Rightarrow> exn + jsobj"
  moveAsync :: "'h \<Rightarrow> string \<Rightarrow> string \<Rightarrow> exn + 'h"
  makeDirectoryAsync :: "'h \<Rightarrow> string \<Rightarrow> jsval \<Rightarrow> exn + 'h"
  readDirectoryAsync :: "'h \<Rightarrow> string \<Rightarrow> exn + string list"
  copyAsync :: "'h \<Rightarrow> string \<Rightarrow> string \<Rightarrow> exn + 'h"

text \<open>The object \<open>stat\<close> returns; \<open>isFile\<close> and \<open>isDirectory\<close> are closures, modelled by the value they return.\<close>

record stat_result =
  st_isFile :: jsval
  st_isDirectory :: jsval
  st_size :: jsval
  st_modificationTime :: jsval

section \<open>The methods of \<open>fs\<close>\<close>

definition readFile :: "'h FileSystem \<Rightarrow> 'h \<Rightarrow> string \<Rightarrow> jsval \<Rightarrow> exn + string" where
  "readFile F h path encoding =
     rethrow (''Failed to read file at '' @ path @ '': '')
       (ebind (resolve_encoding (default_param encoding (JStr ''utf8'')))
          (\<lambda>enc. readAsStringAsync F h path enc))"

definition writeFile :: "'h FileSystem \<Rightarrow> 'h \<Rightarrow> string \<Rightarrow> string \<Rightarrow> jsval \<Rightarrow> exn + 'h" where
  "writeFile F h path data encoding =
     rethrow (''Failed to write file at '' @ path @ '': '')
       (ebind (resolve_encoding (default_param encoding (JStr ''utf8'')))
          (\<lambda>enc. writeAsStringAsync F h path data enc))"

definition appendFile :: "'h FileSystem \<Rightarrow> 'h \<Rightarrow> string \<Rightarrow> string \<Rightarrow> exn + 'h" where
  "appendFile F h path data =
     rethrow (''Failed to append file at '' @ path @ '': '')
       (ebind (readFile F h path JUndefined)
          (\<lambda>existingData. writeFile F h path (existingData @ data) JUndefined))"

definition unlink :: "'h FileSystem \<Rightarrow> 'h \<Rightarrow> string \<Rightarrow> exn + 'h" where
  "unlink F h path =
     rethrow (''Failed to delete file at '' @ path @ '': '') (deleteAsync F h path)"

definition exists :: "'h FileSystem \<Rightarrow> 'h \<Rightarrow> string \<Rightarrow> exn + jsval" where
  "exists F h path =
     (case getInfoAsync F h path False of
        Inl _ \<Rightarrow> Inr (JBool False)
      | Inr info \<Rightarrow> Inr (js_get info ''exists''))"

definition rename :: "'h FileSystem \<Rightarrow> 'h \<Rightarrow> string \<Rightarrow> string \<Rightarrow> exn + 'h" where
  "rename F h oldPath newPath =
     rethrow (''Failed to rename file from '' @ oldPath @ '' to '' @ newPath @ '': '')
       (moveAsync F h oldPath newPath)"

definition mkdir :: "'h FileSystem \<Rightarrow> 'h \<Rightarrow> string \<Rightarrow> jsval \<Rightarrow> exn + 'h" where
  "mkdir F h path options =
     rethrow (''Failed to create directory at '' @ path @ '': '')
       (ebind (js_prop (default_param options (JObj [(''recursive'', JBool True)])) ''recursive'')
          (\<lambda>recursive. makeDirectoryAsync F h path recursive))"

definition readdir :: "'h FileSystem \<Rightarrow> 'h \<Rightarrow> string \<Rightarrow> exn + string list" where
  "readdir F h path =
     rethrow (''Failed to read directory at '' @ path @ '': '') (readDirectoryAsync F h path)"

definition stat :: "'h FileSystem \<Rightarrow> 'h \<Rightarrow> string \<Rightarrow> exn + stat_result" where
  "stat F h path =
     rethrow (''Failed to retrieve stats for '' @ path @ '': '')
       (ebind (getInfoAsync F h path True)
          (\<lambda>info. Inr \<lparr>st_isFile = js_get info ''isFile'',
                       st_isDirectory = js_get info ''isDirectory'',
                       st_size = js_get info ''size'',
                       st_modificationTime = js_get info ''modificationTime''\<rparr>))"

definition copyFile :: "'h FileSystem \<Rightarrow> 'h \<Rightarrow> string \<Rightarrow> string \<Rightarrow> exn + 'h" where
  "copyFile F h srcPath destPath =
     rethrow (''Failed to copy file from '' @ srcPath @ '' to '' @ destPath @ '': '')
       (copyAsync F h srcPath destPath)"

text \<open>The encoding arguments that resolve to the default: omitted, or any string.\<close>

fun is_encoding_arg :: "jsval \<Rightarrow> bool" where
  "is_encoding_arg JUndefined = True"
| "is_encoding_arg (JStr s) = True"
| "is_encoding_arg _ = False"

section \<open>Properties that hold for every host\<close>

lemma resolve_encoding_arg:
  "is_encoding_arg e \<Longrightarrow> resolve_encoding (default_param e (JStr ''utf8'')) = Inr UTF8"
  by (cases e) (simp_all add: resolve_encoding_def EncodingType_def upper_not_Base64)

lemma readFile_utf8:
  "is_encoding_arg e \<Longrightarrow>
     readFile F h path e = rethrow (''Failed to read file at '' @ path @ '': '') (readAsStringAsync F h path UTF8)"
  by (simp add: readFile_def resolve_encoding_arg)

lemma writeFile_utf8:
  "is_encoding_arg e \<Longrightarrow>
     writeFile F h path data e =
       rethrow (''Failed to write file at '' @ path @ '': '') (writeAsStringAsync F h path data UTF8)"
  by (simp add: writeFile_def resolve_encoding_arg)

text \<open>
  C15: for any host, reading or writing with any string as the encoding is the same
  call as with the default \<open>'utf8'\<close>.
\<close>

theorem encoding_argument_ignored:
  "readFile F h path (JStr s) = readFile F h path JUndefined \<and>
   writeFile F h path data (JStr s) = writeFile F h path data JUndefined"
  by (simp add: readFile_utf8 writeFile_utf8)

text \<open>
  C29: a \<open>null\<close> encoding makes \<open>encoding.toUpperCase()\<close> throw inside the
  \<open>try\<close>; the host is not called and the \<open>TypeError\<close> comes back wrapped
  in the read error.
\<close>

theorem readFile_null_encoding:
  "readFile F h path JNull =
     Inl (Err (''Failed to read file at '' @ path @ '': Cannot read properties of null (reading ''
               @ quoted ''toUpperCase'' @ '')''))"
  by (simp add: readFile_def resolve_encoding_def)

text \<open>An invariant of single calls holds after any sequence of calls.\<close>

text \<open>C4: \<open>exists\<close> never rejects, whatever the host does, and a rejected host
  call is answered with \<open>false\<close>.\<close>

theorem exists_never_rejects:
  "(\<exists>v. exists F h path = Inr v) \<and>
   (getInfoAsync F h path False = Inl e \<longrightarrow> exists F h path = Inr (JBool False))"
  by (simp add: exists_def split: sum.split)

text \<open>
  C3: for any host, when the host call of a method rejects with \<open>e\<close>, the method
  rejects with an \<open>Error\<close> whose message is the method's template followed by the
  message of \<open>e\<close>; \<open>appendFile\<close> wraps a failed read twice.
\<close>

theorem host_rejection_wrapped:
  assumes "is_encoding_arg enc"
  shows "(readAsStringAsync F h p UTF8 = Inl e \<longrightarrow>
            readFile F h p enc = Inl (Err (''Failed to read file at '' @ p @ '': '' @ message e))) \<and>
         (writeAsStringAsync F h p d UTF8 = Inl e \<longrightarrow>
            writeFile F h p d enc = Inl (Err (''Failed to write file at '' @ p @ '': '' @ message e))) \<and>
         (readAsStringAsync F h p UTF8 = Inl e \<longrightarrow>
            appendFile F h p d = Inl (Err (''Failed to append file at '' @ p @ '': Failed to read file at ''
                                           @ p @ '': '' @ message e))) \<and>
         (deleteAsync F h p = Inl e \<longrightarrow>
            unlink F h p = Inl (Err (''Failed to delete file at '' @ p @ '': '' @ message e))) \<and>
         (moveAsync F h p q = Inl e \<longrightarrow>
            rename F h p q = Inl (Err (''Failed to rename file from '' @ p @ '' to '' @ q @ '': '' @ message e))) \<and>
         (makeDirectoryAsync F h p (JBool True) = Inl e \<longrightarrow>
            mkdir F h p JUndefined = Inl (Err (''Failed to create directory at '' @ p @ '': '' @ message e))) \<and>
         (readDirectoryAsync F h p = Inl e \<longrightarrow>
            readdir F h p = Inl (Err (''Failed to read directory at '' @ p @ '': '' @ message e))) \<and>
         (getInfoAsync F h p True = Inl e \<longrightarrow>
            stat F h p = Inl (Err (''Failed to retrieve stats for '' @ p @ '': '' @ message e))) \<and>
         (copyAsync F h p q = Inl e \<longrightarrow>
            copyFile F h p q = Inl (Err (''Failed to copy file from '' @ p @ '' to '' @ q @ '': '' @ message e)))"
  using assms
  by (simp add: readFile_utf8 writeFile_utf8 appendFile_def unlink_def rename_def mkdir_def readdir_def
      stat_def copyFile_def)

end
