(* ===== verification/Concurrency.thy ===== *)
theory Concurrency
  imports Facade
begin

text \<open>
  Callers of \<open>appendFile\<close> (\<^verbatim>\<open>src/fs.js\<close> lines 44-51) running at the same
  time. The method suspends twice: at \<open>await fs.readFile(path)\<close> and at
  \<open>await fs.writeFile(path, existingData + data)\<close>. Control passes between
  callers only there, and the host performs each call atomically, so a run of
  several callers is an interleaving of their host calls. A caller is a
  record \<open>append_proc\<close> (its arguments and where it is: before the read,
  before the write with the text it read, finished, or failed with the error
  the \<open>catch\<close> block throws); \<open>append_proc_step\<close> is its next host call, and
  \<open>append_move\<close> lets any unfinished caller take its step. The theory
  \<open>Concurrency_Expo\<close> works out what two such callers do on the expo host.
\<close>

datatype append_pc = Reading | Writing string | Done | Failed exn

record append_proc =
  ap_path :: string
  ap_data :: string
  ap_pc :: append_pc

definition append_fail :: "string \<Rightarrow> exn \<Rightarrow> append_pc" where
  "append_fail path e = Failed (Err (''Failed to append file at '' @ path @ '': '' @ message e))"

definition append_proc_step :: "'h FileSystem \<Rightarrow> 'h \<Rightarrow> append_proc \<Rightarrow> ('h \<times> append_pc) option" where
  "append_proc_step F h p =
     (case ap_pc p of
        Reading \<Rightarrow>
          (case readFile F h (ap_path p) JUndefined of
             Inl e \<Rightarrow> Some (h, append_fail (ap_path p) e)
           | Inr existingData \<Rightarrow> Some (h, Writing existingData))
      | Writing existingData \<Rightarrow>
          (case writeFile F h (ap_path p) (existingData @ ap_data p) JUndefined of
             Inl e \<Rightarrow> Some (h, append_fail (ap_path p) e)
           | Inr h' \<Rightarrow> Some (h', Done))
      | _ \<Rightarrow> None)"

inductive append_move :: "'h FileSystem \<Rightarrow> 'h \<times> append_proc list \<Rightarrow> 'h \<times> append_proc list \<Rightarrow> bool"
  for F where
  move: "i < length ps \<Longrightarrow> append_proc_step F h (ps ! i) = Some (h', pc) \<Longrightarrow>
         append_move F (h, ps) (h', ps[i := (ps ! i)\<lparr>ap_pc := pc\<rparr>])"

lemma append_proc_step_Reading:
  "ap_pc p = Reading \<Longrightarrow>
     append_proc_step F h p =
       Some (case readFile F h (ap_path p) JUndefined of
               Inl e \<Rightarrow> (h, append_fail (ap_path p) e)
             | Inr x \<Rightarrow> (h, Writing x))"
  by (simp add: append_proc_step_def split: sum.split)

lemma append_proc_step_Writing:
  "ap_pc p = Writing x \<Longrightarrow>
     append_proc_step F h p =
       Some (case writeFile F h (ap_path p) (x @ ap_data p) JUndefined of
               Inl e \<Rightarrow> (h, append_fail (ap_path p) e)
             | Inr h' \<Rightarrow> (h', Done))"
  by (simp add: append_proc_step_def split: sum.split)

lemma append_proc_step_final:
  "ap_pc p = Done \<or> (\<exists>e. ap_pc p = Failed e) \<Longrightarrow> append_proc_step F h p = None"
  by (auto simp: append_proc_step_def)

end
