(* ===== verification/Host_Store.thy ===== *)
theory Host_Store
  imports FS_Prelude
begin

text \<open>
  The storage behind the host file-system service (\<open>expo-file-system\<close>, which
  \<^verbatim>\<open>src/fs.js\<close> imports and calls but does not contain). A location is a
  path of name segments; the store is an association list from paths to nodes
  (a file with its text and modification time, or a directory with its
  modification time), in creation order, with a clock for modification times.
  The root directory is implicit. The theory defines the store operations the
  host's calls are built from, the store invariant, the abstraction of a store
  to a partial map (\<open>lookup\<close>), and the lemmas that each operation changes the map
  as its abstract specification says and keeps the invariant.
\<close>

type_synonym fpath = "string list"

datatype node = File string nat | Dir nat

record host =
  entries :: "(fpath \<times> node) list"
  clock :: nat

section \<open>Reading the store\<close>

definition lookup :: "host \<Rightarrow> fpath \<Rightarrow> node option" where
  "lookup h p = (if p = [] then Some (Dir 0) else map_of (entries h) p)"

definition is_dir :: "host \<Rightarrow> fpath \<Rightarrow> bool" where
  "is_dir h p = (case lookup h p of Some (Dir _) \<Rightarrow> True | _ \<Rightarrow> False)"

definition is_file :: "host \<Rightarrow> fpath \<Rightarrow> bool" where
  "is_file h p = (case lookup h p of Some (File _ _) \<Rightarrow> True | _ \<Rightarrow> False)"

text \<open>The names of the direct children of a directory, in creation order.\<close>

definition children :: "host \<Rightarrow> fpath \<Rightarrow> string list" where
  "children h p = map (\<lambda>(q, _). last q) (filter (\<lambda>(q, _). q \<noteq> [] \<and> butlast q = p) (entries h))"

primrec node_size :: "node \<Rightarrow> nat" where
  "node_size (File c t) = length c"
| "node_size (Dir t) = 0"

text \<open>The bytes stored at and below a path.\<close>

definition tree_size :: "host \<Rightarrow> fpath \<Rightarrow> nat" where
  "tree_size h p = sum_list (map (\<lambda>(q, n). node_size n) (filter (\<lambda>(q, _). prefix p q) (entries h)))"

section \<open>Changing the store\<close>

definition put_node :: "fpath \<Rightarrow> node \<Rightarrow> host \<Rightarrow> host" where
  "put_node p n h = h\<lparr>entries := AList.update p n (entries h)\<rparr>"

definition tick :: "host \<Rightarrow> host" where
  "tick h = h\<lparr>clock := Suc (clock h)\<rparr>"

definition remove_tree :: "fpath \<Rightarrow> host \<Rightarrow> host" where
  "remove_tree p h = h\<lparr>entries := filter (\<lambda>(q, _). \<not> prefix p q) (entries h)\<rparr>"

definition rebase :: "fpath \<Rightarrow> fpath \<Rightarrow> fpath \<Rightarrow> fpath" where
  "rebase src dst q = (if prefix src q then dst @ drop (length src) q else q)"

definition move_tree :: "fpath \<Rightarrow> fpath \<Rightarrow> host \<Rightarrow> host" where
  "move_tree src dst h = h\<lparr>entries := map (\<lambda>(q, n). (rebase src dst q, n)) (entries h)\<rparr>"

definition copy_tree :: "fpath \<Rightarrow> fpath \<Rightarrow> host \<Rightarrow> host" where
  "copy_tree src dst h =
     h\<lparr>entries := entries h @
        map (\<lambda>(q, n). (rebase src dst q, n)) (filter (\<lambda>(q, _). prefix src q) (entries h))\<rparr>"

text \<open>Create, below \<open>base\<close>, each missing directory on the way down \<open>rest\<close>.\<close>

fun make_dirs :: "fpath \<Rightarrow> fpath \<Rightarrow> host \<Rightarrow> host" where
  "make_dirs base [] h = h"
| "make_dirs base (s # rest) h =
     (let q = base @ [s]
      in make_dirs q rest (if lookup h q = None then put_node q (Dir (clock h)) h else h))"

section \<open>The store invariant\<close>

text \<open>
  Each path is stored once, the root is not stored, and every proper ancestor
  of a stored path is a directory.
\<close>

definition host_wf :: "host \<Rightarrow> bool" where
  "host_wf h \<longleftrightarrow>
     distinct (map fst (entries h)) \<and>
     (\<forall>(q, n) \<in> set (entries h). q \<noteq> [] \<and> list_all (is_dir h) (ancestors q))"

section \<open>Lemmas: reading the store after each operation\<close>

lemma lookup_root [simp]: "lookup h [] = Some (Dir 0)"
  by (simp add: lookup_def)

lemma lookup_nonroot: "p \<noteq> [] \<Longrightarrow> lookup h p = map_of (entries h) p"
  by (simp add: lookup_def)

lemma is_dir_root [simp]: "is_dir h []"
  by (simp add: is_dir_def)

lemma is_dir_Some: "is_dir h p \<longleftrightarrow> (\<exists>t. lookup h p = Some (Dir t))"
  by (auto simp: is_dir_def split: option.splits node.splits)

lemma is_file_Some: "is_file h p \<longleftrightarrow> (\<exists>c t. lookup h p = Some (File c t))"
  by (auto simp: is_file_def split: option.splits node.splits)

lemma lookup_tick [simp]: "lookup (tick h) = lookup h"
  by (simp add: tick_def lookup_def fun_eq_iff)

lemma entries_tick [simp]: "entries (tick h) = entries h"
  by (simp add: tick_def)

lemma clock_tick [simp]: "clock (tick h) = Suc (clock h)"
  by (simp add: tick_def)

lemma is_dir_tick [simp]: "is_dir (tick h) = is_dir h"
  by (simp add: is_dir_def fun_eq_iff)

lemma is_file_tick [simp]: "is_file (tick h) = is_file h"
  by (simp add: is_file_def fun_eq_iff)

lemma host_wf_tick [simp]: "host_wf (tick h) = host_wf h"
  by (simp add: host_wf_def)

lemma lookup_put_node:
  "p \<noteq> [] \<Longrightarrow> lookup (put_node p n h) q = (if q = p then Some n else lookup h q)"
  by (simp add: lookup_def put_node_def update_conv')

lemma clock_put_node [simp]: "clock (put_node p n h) = clock h"
  by (simp add: put_node_def)

lemma lookup_remove_tree:
  "p \<noteq> [] \<Longrightarrow> lookup (remove_tree p h) q = (if prefix p q then None else lookup h q)"
  by (auto simp: lookup_def remove_tree_def map_of_filter_key)

lemma clock_remove_tree [simp]: "clock (remove_tree p h) = clock h"
  by (simp add: remove_tree_def)

text \<open>A stored path is not the root and all its proper ancestors are directories.\<close>

lemma wf_entry:
  "host_wf h \<Longrightarrow> map_of (entries h) q = Some n \<Longrightarrow> q \<noteq> [] \<and> (\<forall>a. strict_prefix a q \<longrightarrow> is_dir h a)"
  unfolding host_wf_def by (auto dest!: map_of_SomeD simp: list_all_iff)

lemma wf_ancestor_is_dir:
  assumes "host_wf h" and "lookup h p \<noteq> None" and "strict_prefix a p"
  shows "is_dir h a"
proof -
  from assms(3) have "p \<noteq> []" by auto
  with assms(2) obtain n where "map_of (entries h) p = Some n"
    by (auto simp: lookup_def)
  with assms(1,3) show ?thesis by (auto dest: wf_entry)
qed

lemma wf_dir_ancestor:
  assumes "host_wf h" and "is_dir h p" and "strict_prefix a p"
  shows "is_dir h a"
proof -
  from assms(2) have "lookup h p \<noteq> None" by (auto simp: is_dir_def split: option.splits)
  with assms(1,3) show ?thesis using wf_ancestor_is_dir by blast
qed

text \<open>Nothing is stored below a path that does not exist.\<close>

lemma wf_nothing_below:
  assumes "host_wf h" and "lookup h p = None" and "prefix p q"
  shows "lookup h q = None"
proof (rule ccontr)
  assume "lookup h q \<noteq> None"
  show False
  proof (cases "p = q")
    case True
    with assms(2) \<open>lookup h q \<noteq> None\<close> show False by simp
  next
    case False
    with assms(3) have "strict_prefix p q" by (simp add: strict_prefix_def)
    with assms(1) \<open>lookup h q \<noteq> None\<close> have "is_dir h p" by (rule wf_ancestor_is_dir)
    with assms(2) show False by (simp add: is_dir_def)
  qed
qed

lemma host_wfI:
  assumes "distinct (map fst (entries h))"
    and "\<And>q n. map_of (entries h) q = Some n \<Longrightarrow> q \<noteq> [] \<and> (\<forall>a. strict_prefix a q \<longrightarrow> is_dir h a)"
  shows "host_wf h"
proof -
  have "q \<noteq> [] \<and> list_all (is_dir h) (ancestors q)" if "(q, n) \<in> set (entries h)" for q n
  proof -
    from that assms(1) have "map_of (entries h) q = Some n" by simp
    with assms(2) show ?thesis by (auto simp: list_all_iff)
  qed
  with assms(1) show ?thesis by (auto simp: host_wf_def)
qed

lemma put_node_wf:
  assumes wf: "host_wf h" and p: "p \<noteq> []" and par: "is_dir h (butlast p)"
    and keep: "\<not> is_dir h p \<or> (\<exists>t. n = Dir t)"
  shows "host_wf (put_node p n h)"
proof (rule host_wfI)
  show "distinct (map fst (entries (put_node p n h)))"
    using wf by (simp add: put_node_def host_wf_def distinct_update)
next
  fix q m assume q: "map_of (entries (put_node p n h)) q = Some m"
  have dir': "is_dir (put_node p n h) a" if "strict_prefix a q" for a
  proof (cases "q = p")
    case True
    with that p have "a = butlast p \<or> strict_prefix a (butlast p)"
      using strict_prefix_butlast by blast
    with wf par have "is_dir h a" using wf_dir_ancestor by blast
    moreover from True that have "a \<noteq> p" by auto
    ultimately show ?thesis using p by (simp add: is_dir_def lookup_put_node)
  next
    case False
    with q p have "map_of (entries h) q = Some m"
      by (simp add: put_node_def update_conv')
    with wf that have "is_dir h a" by (auto dest: wf_entry)
    with keep p show ?thesis
      by (cases "a = p") (auto simp: is_dir_def lookup_put_node)
  qed
  from q p have "q \<noteq> []"
    by (cases "q = p") (auto simp: put_node_def update_conv' dest: wf_entry[OF wf])
  with dir' show "q \<noteq> [] \<and> (\<forall>a. strict_prefix a q \<longrightarrow> is_dir (put_node p n h) a)" by blast
qed

lemma remove_tree_wf:
  assumes wf: "host_wf h" and p: "p \<noteq> []"
  shows "host_wf (remove_tree p h)"
proof (rule host_wfI)
  show "distinct (map fst (entries (remove_tree p h)))"
    using wf by (simp add: remove_tree_def host_wf_def distinct_map_fst_filter)
next
  fix q m assume q: "map_of (entries (remove_tree p h)) q = Some m"
  then have nq: "\<not> prefix p q" and hq: "map_of (entries h) q = Some m"
    by (auto simp: remove_tree_def map_of_filter_key split: if_splits)
  have "is_dir (remove_tree p h) a" if "strict_prefix a q" for a
  proof -
    from that nq have "\<not> prefix p a"
      using prefix_order.dual_order.trans strict_prefix_def by blast
    moreover from wf hq that have "is_dir h a" by (auto dest: wf_entry)
    ultimately show ?thesis using p by (simp add: is_dir_def lookup_remove_tree)
  qed
  with wf hq show "q \<noteq> [] \<and> (\<forall>a. strict_prefix a q \<longrightarrow> is_dir (remove_tree p h) a)"
    by (auto dest: wf_entry)
qed

section \<open>Lemmas: recursive directory creation, moving and copying\<close>

lemma clock_make_dirs [simp]: "clock (make_dirs base rest h) = clock h"
  by (induction rest arbitrary: base h) (auto simp: Let_def)

lemma rebase_inj_on:
  assumes "\<forall>x\<in>K. \<not> prefix src x \<longrightarrow> \<not> prefix dst x"
  shows "inj_on (rebase src dst) K"
proof (rule inj_onI)
  fix x y assume x: "x \<in> K" and y: "y \<in> K" and eq: "rebase src dst x = rebase src dst y"
  show "x = y"
  proof (cases "prefix src x"; cases "prefix src y")
    assume "prefix src x" "prefix src y"
    with eq show ?thesis by (auto simp: rebase_def prefix_def)
  next
    assume "prefix src x" "\<not> prefix src y"
    with eq have "prefix dst y" by (auto simp: rebase_def)
    with assms y \<open>\<not> prefix src y\<close> show ?thesis by blast
  next
    assume "\<not> prefix src x" "prefix src y"
    with eq have "prefix dst x" by (auto simp: rebase_def)
    with assms x \<open>\<not> prefix src x\<close> show ?thesis by blast
  next
    assume "\<not> prefix src x" "\<not> prefix src y"
    with eq show ?thesis by (simp add: rebase_def)
  qed
qed

lemma lookup_make_dirs:
  "lookup (make_dirs base rest h) q =
     (if lookup h q = None \<and> strict_prefix base q \<and> prefix q (base @ rest)
      then Some (Dir (clock h)) else lookup h q)"
proof (induction rest arbitrary: base h)
  case Nil
  then show ?case by (auto simp: prefix_order.less_le_not_le)
next
  case (Cons s rest)
  let ?q = "base @ [s]"
  let ?h1 = "if lookup h ?q = None then put_node ?q (Dir (clock h)) h else h"
  have "lookup (make_dirs base (s # rest) h) q = lookup (make_dirs ?q rest ?h1) q"
    by (simp add: Let_def)
  also have "\<dots> = (if lookup ?h1 q = None \<and> strict_prefix ?q q \<and> prefix q (?q @ rest)
      then Some (Dir (clock ?h1)) else lookup ?h1 q)"
    by (rule Cons.IH)
  also have "\<dots> = (if lookup h q = None \<and> strict_prefix base q \<and> prefix q (base @ s # rest)
      then Some (Dir (clock h)) else lookup h q)"
    using strict_prefix_append_Cons[of base q s rest] by (auto simp: lookup_put_node)
  finally show ?case .
qed

lemma make_dirs_wf:
  assumes "host_wf h" and "is_dir h base"
    and "\<forall>q. strict_prefix base q \<and> prefix q (base @ rest) \<longrightarrow> \<not> is_file h q"
  shows "host_wf (make_dirs base rest h) \<and> is_dir (make_dirs base rest h) (base @ rest)"
  using assms
proof (induction rest arbitrary: base h)
  case Nil
  then show ?case by simp
next
  case (Cons s rest)
  let ?q = "base @ [s]"
  let ?h1 = "if lookup h ?q = None then put_node ?q (Dir (clock h)) h else h"
  have wf1: "host_wf ?h1"
    using Cons.prems(1,2) by (auto intro!: put_node_wf)
  have "strict_prefix base ?q \<and> prefix ?q (base @ s # rest)"
    by (simp add: strict_prefix_def)
  with Cons.prems(3) have "\<not> is_file h ?q" by blast
  then have dir1: "is_dir ?h1 ?q"
    by (auto simp: is_dir_def is_file_def lookup_put_node split: option.splits node.splits)
  have "\<not> is_file ?h1 x" if "strict_prefix ?q x" "prefix x (?q @ rest)" for x
  proof -
    from that have "x \<noteq> ?q" by auto
    moreover from that Cons.prems(3) have "\<not> is_file h x"
      using strict_prefix_append_Cons[of base x s rest] by auto
    ultimately show ?thesis by (simp add: is_file_def lookup_put_node)
  qed
  with wf1 dir1 have "host_wf (make_dirs ?q rest ?h1) \<and> is_dir (make_dirs ?q rest ?h1) (?q @ rest)"
    by (intro Cons.IH) auto
  then show ?case by (simp add: Let_def)
qed

lemma rebase_prefixed [simp]: "rebase src dst (src @ r) = dst @ r"
  by (simp add: rebase_def)

lemma is_dir_lookup_eq: "lookup h' a = lookup h b \<Longrightarrow> is_dir h' a = is_dir h b"
  by (simp add: is_dir_def)

lemma wf_keys_not_below:
  assumes "host_wf h" and "lookup h dst = None" and "x \<in> fst ` set (entries h)"
  shows "\<not> prefix dst x"
proof
  assume below: "prefix dst x"
  from assms(3) obtain n where "(x, n) \<in> set (entries h)" by auto
  with assms(1) have "map_of (entries h) x = Some n"
    by (simp add: host_wf_def)
  with assms(1) have "lookup h x = Some n"
    by (auto simp: lookup_def dest: wf_entry)
  with wf_nothing_below[OF assms(1,2) below] show False by simp
qed

lemma guard_nonempty:
  assumes "lookup h dst = None" and "\<not> prefix src dst"
  shows "dst \<noteq> []" and "src \<noteq> []"
  using assms by auto

lemma entries_move_tree [simp]:
  "entries (move_tree src dst h) = map (\<lambda>(q, n). (rebase src dst q, n)) (entries h)"
  by (simp add: move_tree_def)

lemma clock_move_tree [simp]: "clock (move_tree src dst h) = clock h"
  by (simp add: move_tree_def)

lemma lookup_move_tree:
  assumes wf: "host_wf h" and dst: "lookup h dst = None" and nest: "\<not> prefix src dst"
  shows "lookup (move_tree src dst h) q =
    (if prefix dst q then lookup h (src @ drop (length dst) q)
     else if prefix src q then None else lookup h q)"
proof -
  let ?K = "fst ` set (entries h)"
  let ?es = "map (\<lambda>(q, n). (rebase src dst q, n)) (entries h)"
  have ne: "dst \<noteq> []" "src \<noteq> []" using guard_nonempty[OF dst nest] by auto
  have fresh: "\<forall>x\<in>?K. \<not> prefix dst x" using wf_keys_not_below[OF wf dst] by blast
  show ?thesis
  proof (cases "prefix dst q")
    case True
    then obtain r where q: "q = dst @ r" by (auto simp: prefix_def)
    have "inj_on (rebase src dst) (insert (src @ r) ?K)"
      by (rule rebase_inj_on) (use fresh in auto)
    then have "map_of ?es (rebase src dst (src @ r)) = map_of (entries h) (src @ r)"
      by (rule map_of_map_keys_inj)
    with q ne show ?thesis by (simp add: lookup_def)
  next
    case False
    note nd = False
    show ?thesis
    proof (cases "prefix src q")
      case True
      have "q \<notin> rebase src dst ` ?K"
        using True nd by (auto simp: rebase_def split: if_splits)
      then have "map_of ?es q = None" by (rule map_of_map_keys_None)
      with True nd ne show ?thesis by (auto simp: lookup_def)
    next
      case False
      have "inj_on (rebase src dst) (insert q ?K)"
        by (rule rebase_inj_on) (use fresh False nd in auto)
      then have "map_of ?es (rebase src dst q) = map_of (entries h) q"
        by (rule map_of_map_keys_inj)
      with False nd show ?thesis by (simp add: lookup_def rebase_def)
    qed
  qed
qed

text \<open>A directory grafted at \<open>dst\<close> from \<open>src\<close>: every proper ancestor of a grafted path is a directory.\<close>

lemma graft_ancestor_is_dir:
  assumes wf: "host_wf h" and par: "is_dir h (butlast dst)" and ne: "dst \<noteq> []"
    and shifted: "\<And>r. lookup h' (dst @ r) = lookup h (src @ r)"
    and above: "\<And>a. strict_prefix a dst \<Longrightarrow> lookup h' a = lookup h a"
    and src: "lookup h (src @ r) \<noteq> None" and a: "strict_prefix a (dst @ r)"
  shows "is_dir h' a"
proof (cases "prefix dst a")
  case True
  then obtain r' where a': "a = dst @ r'" by (auto simp: prefix_def)
  with a have "strict_prefix (src @ r') (src @ r)" by (simp add: strict_prefix_def)
  with wf src have "is_dir h (src @ r')" by (rule wf_ancestor_is_dir)
  with a' shifted show ?thesis using is_dir_lookup_eq by blast
next
  case False
  from a have "prefix a (dst @ r)" by (simp add: strict_prefix_def)
  then have "prefix a dst"
    using False prefix_same_cases[of a "dst @ r" dst] by auto
  with False have sa: "strict_prefix a dst" by (auto simp: strict_prefix_def)
  with ne have "a = butlast dst \<or> strict_prefix a (butlast dst)"
    using strict_prefix_butlast by blast
  with wf par have "is_dir h a" using wf_dir_ancestor by blast
  with above[OF sa] show ?thesis using is_dir_lookup_eq by blast
qed

lemma move_tree_wf:
  assumes wf: "host_wf h" and src: "lookup h src \<noteq> None" and dst: "lookup h dst = None"
    and nest: "\<not> prefix src dst" and par: "is_dir h (butlast dst)"
  shows "host_wf (move_tree src dst h)"
proof (rule host_wfI)
  let ?K = "fst ` set (entries h)"
  let ?h' = "move_tree src dst h"
  have ne: "dst \<noteq> []" "src \<noteq> []" using guard_nonempty[OF dst nest] by auto
  have fresh: "\<forall>x\<in>?K. \<not> prefix dst x" using wf_keys_not_below[OF wf dst] by blast
  note lk = lookup_move_tree[OF wf dst nest]
  have inj: "inj_on (rebase src dst) ?K"
    by (rule rebase_inj_on) (use fresh in auto)
  have eq: "map fst (entries ?h') = map (rebase src dst) (map fst (entries h))"
    unfolding entries_move_tree by (rule map_fst_map_keys)
  have d: "distinct (map fst (entries h))" using wf by (simp add: host_wf_def)
  have "distinct (map (rebase src dst) (map fst (entries h)))"
    by (rule distinct_map[THEN iffD2]) (use d inj in simp)
  then show "distinct (map fst (entries ?h'))" by (simp only: eq)
  fix q m assume qm: "map_of (entries ?h') q = Some m"
  then have "q \<in> rebase src dst ` ?K"
    by (force dest: map_of_SomeD)
  then obtain x where x: "x \<in> ?K" "q = rebase src dst x" by blast
  then have xne: "x \<noteq> []" using wf by (auto simp: host_wf_def)
  with x ne have qne: "q \<noteq> []" by (auto simp: rebase_def)
  with qm have lq: "lookup ?h' q = Some m" by (simp add: lookup_def)
  have "is_dir ?h' a" if a: "strict_prefix a q" for a
  proof (cases "prefix dst q")
    case True
    then obtain r where r: "q = dst @ r" by (auto simp: prefix_def)
    have "lookup h (src @ r) = Some m" using lq lk[of q] True r by simp
    then have "lookup h (src @ r) \<noteq> None" by simp
    moreover have "lookup ?h' (dst @ r') = lookup h (src @ r')" for r'
      using lk[of "dst @ r'"] by simp
    moreover have "lookup ?h' b = lookup h b" if "strict_prefix b dst" for b
    proof -
      from that have "\<not> prefix dst b" by (auto simp: strict_prefix_def dest: prefix_order.antisym)
      moreover from that nest have "\<not> prefix src b"
        using prefix_order.dual_order.trans strict_prefix_def by blast
      ultimately show ?thesis using lk[of b] by simp
    qed
    ultimately show ?thesis
      using graft_ancestor_is_dir[OF wf par ne(1)] a r by blast
  next
    case False
    with lq lk[of q] have ns: "\<not> prefix src q" and lh: "lookup h q = Some m"
      by (auto split: if_splits)
    from a False ns have "\<not> prefix dst a" "\<not> prefix src a"
      using prefix_order.dual_order.trans strict_prefix_def by blast+
    then have "lookup ?h' a = lookup h a" using lk[of a] by simp
    moreover from wf lh a have "is_dir h a" using wf_ancestor_is_dir by blast
    ultimately show ?thesis using is_dir_lookup_eq by blast
  qed
  with qne show "q \<noteq> [] \<and> (\<forall>a. strict_prefix a q \<longrightarrow> is_dir ?h' a)" by blast
qed

lemma entries_copy_tree [simp]:
  "entries (copy_tree src dst h) =
     entries h @ map (\<lambda>(q, n). (rebase src dst q, n)) (filter (\<lambda>(q, _). prefix src q) (entries h))"
  by (simp add: copy_tree_def)

lemma clock_copy_tree [simp]: "clock (copy_tree src dst h) = clock h"
  by (simp add: copy_tree_def)

lemma lookup_copy_tree:
  assumes wf: "host_wf h" and dst: "lookup h dst = None" and nest: "\<not> prefix src dst"
  shows "lookup (copy_tree src dst h) q =
    (if prefix dst q then lookup h (src @ drop (length dst) q) else lookup h q)"
proof -
  let ?sub = "filter (\<lambda>(q, _). prefix src q) (entries h)"
  let ?cs = "map (\<lambda>(q, n). (rebase src dst q, n)) ?sub"
  have ne: "dst \<noteq> []" "src \<noteq> []" using guard_nonempty[OF dst nest] by auto
  have src_keys: "\<forall>x\<in>fst ` set ?sub. prefix src x" by auto
  show ?thesis
  proof (cases "prefix dst q")
    case True
    then obtain r where q: "q = dst @ r" by (auto simp: prefix_def)
    have "inj_on (rebase src dst) (insert (src @ r) (fst ` set ?sub))"
      by (rule rebase_inj_on) (use src_keys in auto)
    then have "map_of ?cs (rebase src dst (src @ r)) = map_of ?sub (src @ r)"
      by (rule map_of_map_keys_inj)
    then have cs: "map_of ?cs q = map_of (entries h) (src @ r)"
      by (simp add: q map_of_filter_key)
    have "lookup h q = None" using wf_nothing_below[OF wf dst True] .
    with q ne have "map_of (entries h) q = None" by (simp add: lookup_def)
    with cs q ne show ?thesis by (simp add: lookup_def map_add_def)
  next
    case False
    have "q \<notin> rebase src dst ` fst ` set ?sub"
      using False by (auto simp: rebase_def)
    then have "map_of ?cs q = None" by (rule map_of_map_keys_None)
    with False show ?thesis by (simp add: lookup_def map_add_def split: option.splits)
  qed
qed

lemma copy_tree_wf:
  assumes wf: "host_wf h" and src: "lookup h src \<noteq> None" and dst: "lookup h dst = None"
    and nest: "\<not> prefix src dst" and par: "is_dir h (butlast dst)"
  shows "host_wf (copy_tree src dst h)"
proof (rule host_wfI)
  let ?K = "fst ` set (entries h)"
  let ?sub = "filter (\<lambda>(q, _). prefix src q) (entries h)"
  let ?h' = "copy_tree src dst h"
  have ne: "dst \<noteq> []" "src \<noteq> []" using guard_nonempty[OF dst nest] by auto
  have fresh: "\<forall>x\<in>?K. \<not> prefix dst x" using wf_keys_not_below[OF wf dst] by blast
  note lk = lookup_copy_tree[OF wf dst nest]
  have d: "distinct (map fst (entries h))" using wf by (simp add: host_wf_def)
  have inj: "inj_on (rebase src dst) (fst ` set ?sub)"
    by (rule rebase_inj_on) auto
  have dsub: "distinct (map fst ?sub)" using d by (rule distinct_map_fst_filter)
  have dcs: "distinct (map (rebase src dst) (map fst ?sub))"
    by (rule distinct_map[THEN iffD2]) (use dsub inj in simp)
  have e2: "map fst (entries ?h') = map fst (entries h) @ map (rebase src dst) (map fst ?sub)"
    by (simp only: entries_copy_tree map_append map_fst_map_keys)
  have below: "\<forall>y \<in> set (map (rebase src dst) (map fst ?sub)). prefix dst y"
    by (auto simp: rebase_def)
  have "set (map fst (entries h)) \<inter> set (map (rebase src dst) (map fst ?sub)) = {}"
  proof -
    have "y \<notin> set (map fst (entries h))" if "y \<in> set (map (rebase src dst) (map fst ?sub))" for y
      using that below fresh by (metis set_map)
    then show ?thesis by blast
  qed
  with d dcs show "distinct (map fst (entries ?h'))"
    by (simp only: e2 distinct_append)
  fix q m assume qm: "map_of (entries ?h') q = Some m"
  then have "(q, m) \<in> set (entries ?h')" by (rule map_of_SomeD)
  then have "q \<in> set (map fst (entries ?h'))" by (metis fst_conv image_eqI set_map)
  then have "q \<in> set (map fst (entries h)) \<or> q \<in> set (map (rebase src dst) (map fst ?sub))"
    by (simp only: e2 set_append Un_iff)
  then have qne: "q \<noteq> []"
  proof
    assume "q \<in> set (map fst (entries h))"
    then obtain n where "(q, n) \<in> set (entries h)" by auto
    with wf show ?thesis by (auto simp: host_wf_def)
  next
    assume "q \<in> set (map (rebase src dst) (map fst ?sub))"
    with below ne show ?thesis by auto
  qed
  with qm have lq: "lookup ?h' q = Some m" by (simp add: lookup_def)
  have "is_dir ?h' a" if a: "strict_prefix a q" for a
  proof (cases "prefix dst q")
    case True
    then obtain r where r: "q = dst @ r" by (auto simp: prefix_def)
    have "lookup h (src @ r) = Some m" using lq lk[of q] True r by simp
    then have "lookup h (src @ r) \<noteq> None" by simp
    moreover have "lookup ?h' (dst @ r') = lookup h (src @ r')" for r'
      using lk[of "dst @ r'"] by simp
    moreover have "lookup ?h' b = lookup h b" if "strict_prefix b dst" for b
    proof -
      from that have "\<not> prefix dst b" by (auto simp: strict_prefix_def dest: prefix_order.antisym)
      then show ?thesis using lk[of b] by simp
    qed
    ultimately show ?thesis
      using graft_ancestor_is_dir[OF wf par ne(1)] a r by blast
  next
    case False
    with lq lk[of q] have lh: "lookup h q = Some m" by simp
    from a False have "\<not> prefix dst a"
      using prefix_order.dual_order.trans strict_prefix_def by blast
    then have "lookup ?h' a = lookup h a" using lk[of a] by simp
    moreover from wf lh a have "is_dir h a" using wf_ancestor_is_dir by blast
    ultimately show ?thesis using is_dir_lookup_eq by blast
  qed
  with qne show "q \<noteq> [] \<and> (\<forall>a. strict_prefix a q \<longrightarrow> is_dir ?h' a)" by blast
qed

end
