(* ===== verification/Host_Uri.thy ===== *)
theory Host_Uri
  imports FS_Prelude
begin

text \<open>
  Locations. Every path argument of \<^verbatim>\<open>src/fs.js\<close> is passed verbatim to the
  host, which accepts \<open>file://\<close> locations and splits them into name segments
  (an empty segment, as in \<open>a//b\<close> or a trailing slash, is skipped). This
  theory models that parsing, the printing of a segment path back to a
  location, and proves that printing then parsing gives the path back.
\<close>

definition file_scheme :: string where
  "file_scheme = ''file://''"

text \<open>Split at \<open>/\<close>; \<open>cur\<close> holds the current segment, reversed.\<close>

fun split_segs :: "string \<Rightarrow> string \<Rightarrow> string list" where
  "split_segs cur [] = (if cur = [] then [] else [rev cur])"
| "split_segs cur (c # cs) =
     (if c = CHR ''/''
      then (if cur = [] then split_segs [] cs else rev cur # split_segs [] cs)
      else split_segs (c # cur) cs)"

definition parse_uri :: "string \<Rightarrow> string list option" where
  "parse_uri u =
     (if prefix file_scheme u then Some (split_segs [] (drop (length file_scheme) u)) else None)"

definition print_uri :: "string list \<Rightarrow> string" where
  "print_uri p = file_scheme @ concat (map (\<lambda>s. CHR ''/'' # s) p)"

definition good_seg :: "string \<Rightarrow> bool" where
  "good_seg s \<longleftrightarrow> s \<noteq> [] \<and> CHR ''/'' \<notin> set s"

lemma split_segs_append:
  "CHR ''/'' \<notin> set s \<Longrightarrow> split_segs cur (s @ r) = split_segs (rev s @ cur) r"
  by (induction s arbitrary: cur) auto

lemma split_segs_print:
  "list_all good_seg p \<Longrightarrow>
     split_segs cur (concat (map (\<lambda>s. CHR ''/'' # s) p)) = (if cur = [] then [] else [rev cur]) @ p"
proof (induction p arbitrary: cur)
  case Nil
  then show ?case by simp
next
  case (Cons s p)
  from Cons.prems have p: "list_all good_seg p" by simp
  from Cons.prems have s: "s \<noteq> []" "CHR ''/'' \<notin> set s" by (simp_all add: good_seg_def)
  have "split_segs [] (s @ concat (map (\<lambda>s. CHR ''/'' # s) p)) = s # p"
    using s Cons.IH[OF p, of "rev s"] by (simp add: split_segs_append)
  then show ?case by simp
qed

lemma parse_print_uri: "list_all good_seg p \<Longrightarrow> parse_uri (print_uri p) = Some p"
  by (simp add: parse_uri_def print_uri_def split_segs_print)

lemma parse_uri_scheme: "parse_uri u = None \<longleftrightarrow> \<not> prefix file_scheme u"
  by (simp add: parse_uri_def)

end
