(* ===== verification/Host_Ops.thy ===== *)
theory Host_Ops
  imports Host_Store Host_Uri Encoding
begin

text \<open>
  The host calls \<^verbatim>\<open>src/fs.js\<close> makes, as the \<open>expo-file-system\<close> module
  documents them: each takes the store and its arguments and either rejects
  with an \<open>Error\<close> (the left side) or resolves with its result or the new store.
  A call that rejects leaves the store as it was. Locations must use the
  \<open>file://\<close> scheme; a directory is created, moved, copied and deleted with
  everything below it; \<open>getInfoAsync\<close> does not reject for a missing location
  but answers \<open>{exists: false, isDirectory: false}\<close>, and its answer for an
  existing location has the fields \<open>exists\<close>, \<open>uri\<close>, \<open>size\<close>,
  \<open>isDirectory\<close> and \<open>modificationTime\<close> (there is no \<open>isFile\<close> field).
\<close>

definition unsupported :: "string \<Rightarrow> exn" where
  "unsupported u = Err (''Location '' @ quoted u @ '' isn't supported.'')"

definition expo_readAsStringAsync :: "host \<Rightarrow> string \<Rightarrow> encoding_type \<Rightarrow> exn + string" where
  "expo_readAsStringAsync h u enc =
     (case parse_uri u of
        None \<Rightarrow> Inl (unsupported u)
      | Some p \<Rightarrow>
          (case lookup h p of
             Some (File c t) \<Rightarrow> Inr (encode_content enc c)
           | _ \<Rightarrow> Inl (Err (''File '' @ quoted u @ '' could not be read.''))))"

definition expo_writeAsStringAsync :: "host \<Rightarrow> string \<Rightarrow> string \<Rightarrow> encoding_type \<Rightarrow> exn + host" where
  "expo_writeAsStringAsync h u d enc =
     (case parse_uri u of
        None \<Rightarrow> Inl (unsupported u)
      | Some p \<Rightarrow>
          if is_dir h p then Inl (Err (''Location '' @ quoted u @ '' is a directory.''))
          else if \<not> is_dir h (butlast p)
          then Inl (Err (''Directory for '' @ quoted u @ '' doesn't exist.''))
          else (case decode_content enc d of
                  None \<Rightarrow> Inl (Err ''Invalid base64 content.'')
                | Some c \<Rightarrow> Inr (tick (put_node p (File c (clock h)) h))))"

definition expo_deleteAsync :: "host \<Rightarrow> string \<Rightarrow> exn + host" where
  "expo_deleteAsync h u =
     (case parse_uri u of
        None \<Rightarrow> Inl (unsupported u)
      | Some p \<Rightarrow>
          if p = [] then Inl (Err (''Location '' @ quoted u @ '' cannot be deleted.''))
          else if lookup h p = None
          then Inl (Err (''File '' @ quoted u @ '' could not be deleted because it could not be found.''))
          else Inr (remove_tree p h))"

definition expo_getInfoAsync :: "host \<Rightarrow> string \<Rightarrow> bool \<Rightarrow> exn + jsobj" where
  "expo_getInfoAsync h u want_size =
     (case parse_uri u of
        None \<Rightarrow> Inl (unsupported u)
      | Some p \<Rightarrow>
          Inr (case lookup h p of
                 None \<Rightarrow> [(''exists'', JBool False), (''uri'', JStr u), (''isDirectory'', JBool False)]
               | Some (File c t) \<Rightarrow>
                   [(''exists'', JBool True), (''uri'', JStr u), (''size'', JNum (length c)),
                    (''isDirectory'', JBool False), (''modificationTime'', JNum t)]
               | Some (Dir t) \<Rightarrow>
                   [(''exists'', JBool True), (''uri'', JStr u), (''size'', JNum (tree_size h p)),
                    (''isDirectory'', JBool True), (''modificationTime'', JNum t)]))"

text \<open>The checks a move or a copy makes before it changes the store.\<close>

definition transfer_check :: "host \<Rightarrow> string \<Rightarrow> string \<Rightarrow> fpath \<Rightarrow> fpath \<Rightarrow> exn option" where
  "transfer_check h from to src dst =
     (if lookup h src = None then Some (Err (''File '' @ quoted from @ '' could not be found.''))
      else if prefix src dst
      then Some (Err (''Location '' @ quoted to @ '' is inside '' @ quoted from @ ''.''))
      else if lookup h dst \<noteq> None then Some (Err (''Location '' @ quoted to @ '' already exists.''))
      else if \<not> is_dir h (butlast dst)
      then Some (Err (''Directory for '' @ quoted to @ '' doesn't exist.''))
      else None)"

definition expo_moveAsync :: "host \<Rightarrow> string \<Rightarrow> string \<Rightarrow> exn + host" where
  "expo_moveAsync h from to =
     (case (parse_uri from, parse_uri to) of
        (None, _) \<Rightarrow> Inl (unsupported from)
      | (_, None) \<Rightarrow> Inl (unsupported to)
      | (Some src, Some dst) \<Rightarrow>
          (case transfer_check h from to src dst of
             Some e \<Rightarrow> Inl e
           | None \<Rightarrow> Inr (move_tree src dst h)))"

definition expo_copyAsync :: "host \<Rightarrow> string \<Rightarrow> string \<Rightarrow> exn + host" where
  "expo_copyAsync h from to =
     (case (parse_uri from, parse_uri to) of
        (None, _) \<Rightarrow> Inl (unsupported from)
      | (_, None) \<Rightarrow> Inl (unsupported to)
      | (Some src, Some dst) \<Rightarrow>
          (case transfer_check h from to src dst of
             Some e \<Rightarrow> Inl e
           | None \<Rightarrow> Inr (copy_tree src dst h)))"

text \<open>
  The \<open>intermediates\<close> option as the native module reads it: absent
  (\<open>undefined\<close> or \<open>null\<close>) means \<open>false\<close>; a value that is not a boolean is
  rejected.
\<close>

fun option_bool :: "jsval \<Rightarrow> bool option" where
  "option_bool JUndefined = Some False"
| "option_bool JNull = Some False"
| "option_bool (JBool b) = Some b"
| "option_bool _ = None"

definition expo_makeDirectoryAsync :: "host \<Rightarrow> string \<Rightarrow> jsval \<Rightarrow> exn + host" where
  "expo_makeDirectoryAsync h u intermediates =
     (case parse_uri u of
        None \<Rightarrow> Inl (unsupported u)
      | Some p \<Rightarrow>
          (case option_bool intermediates of
             None \<Rightarrow> Inl (TypeErr ''Argument of type intermediates must be a boolean.'')
           | Some True \<Rightarrow>
               if list_ex (is_file h) (prefixes p)
               then Inl (Err (''Directory '' @ quoted u @ '' could not be created: a file is in the way.''))
               else if is_dir h p then Inr h
               else Inr (tick (make_dirs [] p h))
           | Some False \<Rightarrow>
               if lookup h p \<noteq> None
               then Inl (Err (''Directory '' @ quoted u @ '' already exists.''))
               else if \<not> is_dir h (butlast p)
               then Inl (Err (''Directory '' @ quoted u @ '' could not be created: no parent directory.''))
               else Inr (tick (put_node p (Dir (clock h)) h))))"

definition expo_readDirectoryAsync :: "host \<Rightarrow> string \<Rightarrow> exn + string list" where
  "expo_readDirectoryAsync h u =
     (case parse_uri u of
        None \<Rightarrow> Inl (unsupported u)
      | Some p \<Rightarrow>
          (case lookup h p of
             Some (Dir t) \<Rightarrow> Inr (children h p)
           | Some (File c t) \<Rightarrow> Inl (Err (''Location '' @ quoted u @ '' is not a directory.''))
           | None \<Rightarrow> Inl (Err (''Directory '' @ quoted u @ '' could not be read.''))))"

section \<open>Every host call keeps the store invariant\<close>

lemma expo_writeAsStringAsync_wf:
  assumes "host_wf h" and "expo_writeAsStringAsync h u d enc = Inr h'"
  shows "host_wf h'"
proof -
  from assms(2) obtain p c where p: "parse_uri u = Some p" and nd: "\<not> is_dir h p"
    and par: "is_dir h (butlast p)" and h': "h' = tick (put_node p (File c (clock h)) h)"
    by (auto simp: expo_writeAsStringAsync_def split: option.splits if_splits)
  from nd have "p \<noteq> []" by auto
  with assms(1) nd par have "host_wf (put_node p (File c (clock h)) h)"
    by (intro put_node_wf) auto
  with h' show ?thesis by simp
qed

lemma expo_deleteAsync_wf:
  assumes "host_wf h" and "expo_deleteAsync h u = Inr h'"
  shows "host_wf h'"
  using assms remove_tree_wf
  by (auto simp: expo_deleteAsync_def split: option.splits if_splits)

lemma transfer_check_None:
  "transfer_check h from to src dst = None \<longleftrightarrow>
     lookup h src \<noteq> None \<and> \<not> prefix src dst \<and> lookup h dst = None \<and> is_dir h (butlast dst)"
  by (simp add: transfer_check_def)

lemma expo_moveAsync_wf:
  assumes "host_wf h" and "expo_moveAsync h from to = Inr h'"
  shows "host_wf h'"
  using assms move_tree_wf
  by (auto simp: expo_moveAsync_def transfer_check_None split: option.splits)

lemma expo_copyAsync_wf:
  assumes "host_wf h" and "expo_copyAsync h from to = Inr h'"
  shows "host_wf h'"
  using assms copy_tree_wf
  by (auto simp: expo_copyAsync_def transfer_check_None split: option.splits)

lemma no_file_on_path:
  "\<not> list_ex (is_file h) (prefixes p) \<Longrightarrow>
     \<forall>q. strict_prefix [] q \<and> prefix q ([] @ p) \<longrightarrow> \<not> is_file h q"
  by (auto simp: list_ex_iff)

lemma expo_makeDirectoryAsync_wf:
  assumes wf: "host_wf h" and ok: "expo_makeDirectoryAsync h u i = Inr h'"
  shows "host_wf h'"
proof -
  from ok obtain p b where p: "parse_uri u = Some p" and b: "option_bool i = Some b"
    by (auto simp: expo_makeDirectoryAsync_def split: option.splits)
  show ?thesis
  proof (cases b)
    case True
    with ok p b have nf: "\<not> list_ex (is_file h) (prefixes p)"
      and h': "h' = h \<or> h' = tick (make_dirs [] p h)"
      by (auto simp: expo_makeDirectoryAsync_def split: if_splits)
    have "host_wf (make_dirs [] p h)"
      using make_dirs_wf[OF wf is_dir_root no_file_on_path[OF nf]] by simp
    with h' wf show ?thesis by auto
  next
    case False
    with ok p b have "lookup h p = None" and par: "is_dir h (butlast p)"
      and h': "h' = tick (put_node p (Dir (clock h)) h)"
      by (auto simp: expo_makeDirectoryAsync_def split: if_splits)
    then have "p \<noteq> []" by auto
    with wf par have "host_wf (put_node p (Dir (clock h)) h)"
      by (intro put_node_wf) auto
    with h' show ?thesis by simp
  qed
qed

section \<open>Writing and reading in base64\<close>

text \<open>A base64 write stores the decoded bytes: reading them back in base64
  gives the text written, and reading them as UTF-8 gives the bytes.\<close>

lemma expo_base64_roundtrip:
  assumes "parse_uri u = Some p" and "\<not> is_dir h p" and "is_dir h (butlast p)"
  shows "\<exists>h'. expo_writeAsStringAsync h u (b64_encode s) Base64 = Inr h' \<and>
              expo_readAsStringAsync h' u Base64 = Inr (b64_encode s) \<and>
              expo_readAsStringAsync h' u UTF8 = Inr s"
proof -
  have "p \<noteq> []" using assms(2) by auto
  with assms show ?thesis
    by (simp add: expo_writeAsStringAsync_def expo_readAsStringAsync_def b64_decode_encode lookup_put_node)
qed

end
