(* ===== verification/Facade_Expo.thy ===== *)
theory Facade_Expo
  imports Facade Host_Ops "HOL-Library.Multiset"
begin

text \<open>
  The facade of \<^verbatim>\<open>src/fs.js\<close> running on the modelled expo host: the record
  \<open>expo\<close> plugs the calls of \<open>Host_Ops\<close> into the \<open>FileSystem\<close> interface,
  and the theorems here are the facade's observable behaviour on that host: the
  write/read round trip, sequential appends, the store invariant across every
  call and every sequence of calls, \<open>exists\<close>, \<open>mkdir\<close> and its option
  defaults, \<open>readdir\<close>, \<open>stat\<close>, \<open>copyFile\<close> and \<open>rename\<close>. Each theorem
  with hypotheses has a witness at the concrete store \<open>demo_host\<close>.
\<close>

definition expo :: "host FileSystem" where
  "expo = \<lparr>readAsStringAsync = expo_readAsStringAsync,
           writeAsStringAsync = expo_writeAsStringAsync,
           deleteAsync = expo_deleteAsync,
           getInfoAsync = expo_getInfoAsync,
           moveAsync = expo_moveAsync,
           makeDirectoryAsync = expo_makeDirectoryAsync,
           readDirectoryAsync = expo_readDirectoryAsync,
           copyAsync = expo_copyAsync\<rparr>"

definition demo_host :: host where
  "demo_host =
     \<lparr>entries = [([''d''], Dir 0), ([''d'', ''f''], File ''abc'' 1), ([''e''], Dir 1)], clock = 2\<rparr>"

lemma expo_simps [simp]:
  "readAsStringAsync expo = expo_readAsStringAsync"
  "writeAsStringAsync expo = expo_writeAsStringAsync"
  "deleteAsync expo = expo_deleteAsync"
  "getInfoAsync expo = expo_getInfoAsync"
  "moveAsync expo = expo_moveAsync"
  "makeDirectoryAsync expo = expo_makeDirectoryAsync"
  "readDirectoryAsync expo = expo_readDirectoryAsync"
  "copyAsync expo = expo_copyAsync"
  by (simp_all add: expo_def)

lemma p_nonroot: "\<not> is_dir h p \<Longrightarrow> p \<noteq> []"
  by auto

lemma writeFile_expo:
  assumes "is_encoding_arg e" and "parse_uri path = Some p" and "\<not> is_dir h p" and "is_dir h (butlast p)"
  shows "writeFile expo h path data e = Inr (tick (put_node p (File data (clock h)) h))"
  using assms by (simp add: writeFile_utf8 expo_writeAsStringAsync_def)

lemma writeFile_expo_Inr:
  assumes "is_encoding_arg e" and "writeFile expo h path data e = Inr h'"
  shows "\<exists>p. parse_uri path = Some p \<and> p \<noteq> [] \<and> \<not> is_dir h p \<and> is_dir h (butlast p) \<and>
             h' = tick (put_node p (File data (clock h)) h)"
  using assms by (auto simp: writeFile_utf8 expo_writeAsStringAsync_def split: option.splits if_splits)

lemma readFile_expo_file:
  assumes "is_encoding_arg e" and "parse_uri path = Some p" and "lookup h p = Some (File c t)"
  shows "readFile expo h path e = Inr c"
  using assms by (simp add: readFile_utf8 expo_readAsStringAsync_def)

lemma wf_file_parent:
  assumes "host_wf h" and "lookup h p = Some (File c t)"
  shows "p \<noteq> [] \<and> \<not> is_dir h p \<and> is_dir h (butlast p)"
proof -
  from assms(2) have ne: "p \<noteq> []" by auto
  with assms have "is_dir h (butlast p)"
    by (intro wf_ancestor_is_dir[OF assms(1)]) (auto simp: butlast_strict_prefix)
  with ne assms(2) show ?thesis by (simp add: is_dir_def)
qed

text \<open>C1: writing a text and reading it back gives the text, for every pair of encoding arguments.\<close>

theorem write_read_roundtrip:
  assumes "parse_uri path = Some p" and "\<not> is_dir h p" and "is_dir h (butlast p)"
    and "is_encoding_arg e1" and "is_encoding_arg e2"
  shows "\<exists>h'. writeFile expo h path data e1 = Inr h' \<and> readFile expo h' path e2 = Inr data"
proof -
  let ?h' = "tick (put_node p (File data (clock h)) h)"
  have "writeFile expo h path data e1 = Inr ?h'"
    using assms by (simp add: writeFile_def resolve_encoding_arg expo_writeAsStringAsync_def)
  moreover have "lookup ?h' p = Some (File data (clock h))"
    using p_nonroot[OF assms(2)] by (simp add: lookup_put_node)
  then have "readFile expo ?h' path e2 = Inr data"
    using assms(1,5) readFile_expo_file by blast
  ultimately show ?thesis by blast
qed

text \<open>C2: two appends in sequence to an existing file add both texts, in order.\<close>

theorem append_sequential:
  assumes wf: "host_wf h" and p: "parse_uri path = Some p" and f: "lookup h p = Some (File c t)"
  shows "\<exists>h1 h2. appendFile expo h path a = Inr h1 \<and> appendFile expo h1 path b = Inr h2 \<and>
                 readFile expo h2 path JUndefined = Inr (c @ a @ b)"
proof -
  let ?h1 = "tick (put_node p (File (c @ a) (clock h)) h)"
  let ?h2 = "tick (put_node p (File (c @ a @ b) (clock ?h1)) ?h1)"
  have ne: "p \<noteq> []" using wf_file_parent[OF wf f] by simp
  have a1: "appendFile expo h path a = Inr ?h1"
    using p f wf_file_parent[OF wf f] by (simp add: appendFile_def readFile_expo_file writeFile_expo)
  have wf1: "host_wf ?h1"
    using wf_file_parent[OF wf f] by (simp add: put_node_wf wf)
  have f1: "lookup ?h1 p = Some (File (c @ a) (clock h))" using ne by (simp add: lookup_put_node)
  have a2: "appendFile expo ?h1 path b = Inr ?h2"
    using p f1 wf_file_parent[OF wf1 f1] by (simp add: appendFile_def readFile_expo_file writeFile_expo)
  have "lookup ?h2 p = Some (File (c @ a @ b) (clock ?h1))" using ne by (simp add: lookup_put_node)
  then have "readFile expo ?h2 path JUndefined = Inr (c @ a @ b)"
    by (intro readFile_expo_file[OF _ p]) simp_all
  with a1 a2 show ?thesis by blast
qed

text \<open>C12: \<open>exists\<close> answers whether the location is a valid \<open>file://\<close> location with something stored at it.\<close>

theorem exists_spec:
  "exists expo h path =
     Inr (JBool (case parse_uri path of None \<Rightarrow> False | Some p \<Rightarrow> lookup h p \<noteq> None))"
  by (simp add: exists_def expo_getInfoAsync_def split: option.splits node.splits)

text \<open>C13: after a successful \<open>unlink\<close>, \<open>exists\<close> on the same location answers \<open>false\<close>.\<close>

theorem exists_after_unlink:
  assumes "unlink expo h path = Inr h'"
  shows "exists expo h' path = Inr (JBool False)"
proof -
  from assms obtain p where p: "parse_uri path = Some p" and ne: "p \<noteq> []"
    and h': "h' = remove_tree p h"
    by (auto simp: unlink_def expo_deleteAsync_def split: option.splits if_splits)
  then have "lookup h' p = None" by (simp add: lookup_remove_tree)
  with p show ?thesis by (simp add: exists_def expo_getInfoAsync_def)
qed

text \<open>
  C16: \<open>mkdir\<close> with the default options creates the directory and every missing
  directory above it, unless a file is in the way.
\<close>

theorem mkdir_recursive_creates:
  assumes wf: "host_wf h" and p: "parse_uri path = Some p"
    and nf: "\<not> list_ex (is_file h) (prefixes p)"
  shows "\<exists>h'. mkdir expo h path JUndefined = Inr h' \<and> is_dir h' p \<and> host_wf h'"
proof (cases "is_dir h p")
  case True
  with wf p nf show ?thesis
    by (simp add: mkdir_def expo_makeDirectoryAsync_def)
next
  case False
  have "host_wf (make_dirs [] p h) \<and> is_dir (make_dirs [] p h) ([] @ p)"
    by (rule make_dirs_wf[OF wf is_dir_root no_file_on_path[OF nf]])
  with False p nf show ?thesis
    by (simp add: mkdir_def expo_makeDirectoryAsync_def)
qed

text \<open>
  C17: with \<open>{recursive: false}\<close>, \<open>mkdir\<close> fails with the directory-creation
  error when the parent directory does not exist.
\<close>

theorem mkdir_nonrecursive_fails:
  assumes p: "parse_uri path = Some p" and par: "lookup h (butlast p) = None"
  shows "\<exists>m. mkdir expo h path (JObj [(''recursive'', JBool False)]) =
              Inl (Err (''Failed to create directory at '' @ path @ '': '' @ m))"
proof -
  from par have "\<not> is_dir h (butlast p)" by (simp add: is_dir_def)
  with p show ?thesis
    by (auto simp: mkdir_def expo_makeDirectoryAsync_def)
qed

text \<open>
  C18: the default \<open>{recursive: true}\<close> applies only when the options argument is
  omitted: an options object without \<open>recursive\<close> creates non-recursively.
\<close>

theorem mkdir_option_defaults:
  "mkdir expo h path JUndefined = mkdir expo h path (JObj [(''recursive'', JBool True)]) \<and>
   mkdir expo h path (JObj []) = mkdir expo h path (JObj [(''recursive'', JBool False)])"
  by (simp add: mkdir_def expo_makeDirectoryAsync_def split: option.split)

lemma children_new_child:
  assumes "lookup h (d @ [a]) = None"
  shows "children (tick (put_node (d @ [a]) n h)) d = children h d @ [a]"
proof -
  have "map_of (entries h) (d @ [a]) = None" using assms by (simp add: lookup_def)
  then have "d @ [a] \<notin> fst ` set (entries h)" by (simp add: map_of_eq_None_iff)
  then have "AList.update (d @ [a]) n (entries h) = entries h @ [(d @ [a], n)]"
    by (rule update_new)
  then show ?thesis by (simp add: children_def put_node_def)
qed

lemma child_in_children:
  assumes "lookup h (d @ [a]) \<noteq> None"
  shows "a \<in> set (children h d)"
proof -
  from assms obtain n where "map_of (entries h) (d @ [a]) = Some n" by (auto simp: lookup_def)
  then have "(d @ [a], n) \<in> set (entries h)" by (rule map_of_SomeD)
  then show ?thesis by (force simp: children_def)
qed

text \<open>
  C19: writing two new files into an empty directory and listing it gives exactly
  their two names, each once; the order is left open, as the spec leaves it to
  the host.
\<close>

theorem readdir_after_writes:
  assumes good: "list_all good_seg (d @ [a, b])" and ab: "a \<noteq> b"
    and dir: "is_dir h d" and empty: "children h d = []"
  shows "\<exists>h1 h2. writeFile expo h (print_uri (d @ [a])) x JUndefined = Inr h1 \<and>
                 writeFile expo h1 (print_uri (d @ [b])) y JUndefined = Inr h2 \<and>
                 (\<exists>ns. readdir expo h2 (print_uri d) = Inr ns \<and> mset ns = {#a, b#})"
proof -
  have pa: "parse_uri (print_uri (d @ [a])) = Some (d @ [a])"
    and pb: "parse_uri (print_uri (d @ [b])) = Some (d @ [b])"
    and pd: "parse_uri (print_uri d) = Some d"
    using good by (simp_all add: parse_print_uri)
  have na: "lookup h (d @ [a]) = None" and nb: "lookup h (d @ [b]) = None"
    using empty child_in_children by fastforce+
  let ?h1 = "tick (put_node (d @ [a]) (File x (clock h)) h)"
  let ?h2 = "tick (put_node (d @ [b]) (File y (clock ?h1)) ?h1)"
  have w1: "writeFile expo h (print_uri (d @ [a])) x JUndefined = Inr ?h1"
    using na dir by (intro writeFile_expo[OF _ pa]) (simp_all add: is_dir_def)
  have nb1: "lookup ?h1 (d @ [b]) = None" and d1: "is_dir ?h1 d"
    using nb dir ab by (simp_all add: lookup_put_node is_dir_def)
  have w2: "writeFile expo ?h1 (print_uri (d @ [b])) y JUndefined = Inr ?h2"
    using nb1 d1 by (intro writeFile_expo[OF _ pb]) (simp_all add: is_dir_def)
  have "children ?h2 d = [a, b]"
    using nb1 children_new_child[OF na] empty
    by (simp add: children_new_child del: entries_tick)
  moreover have "is_dir ?h2 d" using d1 by (simp add: is_dir_def lookup_put_node)
  ultimately have "readdir expo ?h2 (print_uri d) = Inr [a, b]"
    using pd by (auto simp: readdir_def expo_readDirectoryAsync_def is_dir_def
                       split: option.splits node.splits)
  with w1 w2 show ?thesis by (intro exI[of _ ?h1] exI[of _ ?h2]) auto
qed

text \<open>
  C20: after a successful write of a text, \<open>stat\<close> reports its size and the
  write's time; \<open>isFile()\<close> answers \<open>undefined\<close>, because the host's info object
  has no \<open>isFile\<close> field.
\<close>

theorem stat_after_write:
  assumes "is_encoding_arg e" and "writeFile expo h path data e = Inr h'"
  shows "stat expo h' path =
    Inr \<lparr>st_isFile = JUndefined, st_isDirectory = JBool False,
         st_size = JNum (length data), st_modificationTime = JNum (clock h)\<rparr>"
proof -
  from writeFile_expo_Inr[OF assms] obtain p where p: "parse_uri path = Some p"
    and ne: "p \<noteq> []" and h': "h' = tick (put_node p (File data (clock h)) h)"
    by blast
  then have "lookup h' p = Some (File data (clock h))" by (simp add: lookup_put_node)
  with p show ?thesis by (simp add: stat_def expo_getInfoAsync_def)
qed

text \<open>
  C21: \<open>stat\<close> of a valid location where nothing is stored does not fail: it
  answers a descriptor whose size and time are \<open>undefined\<close>.
\<close>

theorem stat_missing_resolves:
  assumes "parse_uri path = Some p" and "lookup h p = None"
  shows "stat expo h path =
    Inr \<lparr>st_isFile = JUndefined, st_isDirectory = JBool False,
         st_size = JUndefined, st_modificationTime = JUndefined\<rparr>"
  using assms by (simp add: stat_def expo_getInfoAsync_def)

text \<open>
  C22: a successful \<open>copyFile\<close> puts at the destination a copy of everything at and
  below the source, and changes nothing else.
\<close>

theorem copyFile_grafts:
  assumes wf: "host_wf h" and ok: "copyFile expo h src dst = Inr h'"
    and ps: "parse_uri src = Some s" and pd: "parse_uri dst = Some d"
  shows "lookup h' q = (if prefix d q then lookup h (s @ drop (length d) q) else lookup h q)"
proof -
  from ok ps pd have chk: "transfer_check h src dst s d = None" and h': "h' = copy_tree s d h"
    by (auto simp: copyFile_def expo_copyAsync_def split: option.splits)
  from chk have "lookup h d = None" and "\<not> prefix s d" by (simp_all add: transfer_check_None)
  with wf h' show ?thesis by (simp add: lookup_copy_tree)
qed

text \<open>
  C23: a successful \<open>rename\<close> moves everything at and below the old location to
  the new one: the old location and everything below it are gone, nothing else changes.
\<close>

theorem rename_moves:
  assumes wf: "host_wf h" and ok: "rename expo h src dst = Inr h'"
    and ps: "parse_uri src = Some s" and pd: "parse_uri dst = Some d"
  shows "lookup h' q =
    (if prefix d q then lookup h (s @ drop (length d) q) else if prefix s q then None else lookup h q)"
proof -
  from ok ps pd have chk: "transfer_check h src dst s d = None" and h': "h' = move_tree s d h"
    by (auto simp: rename_def expo_moveAsync_def split: option.splits)
  from chk have "lookup h d = None" and "\<not> prefix s d" by (simp_all add: transfer_check_None)
  with wf h' show ?thesis by (simp add: lookup_move_tree)
qed

section \<open>Witnesses at a concrete store\<close>

lemmas demo_eval = demo_host_def lookup_def is_dir_def is_file_def parse_uri_def file_scheme_def

lemma demo_wf: "host_wf demo_host"
  by (simp add: host_wf_def demo_eval)

theorem write_read_roundtrip_witness:
  "parse_uri ''file:///d/g'' = Some [''d'', ''g''] \<and> \<not> is_dir demo_host [''d'', ''g''] \<and>
   is_dir demo_host (butlast [''d'', ''g'']) \<and> is_encoding_arg (JStr ''base64'') \<and>
   is_encoding_arg JUndefined \<and>
   (\<exists>h'. writeFile expo demo_host ''file:///d/g'' ''hello'' (JStr ''base64'') = Inr h' \<and>
         readFile expo h' ''file:///d/g'' JUndefined = Inr ''hello'')"
proof -
  have hs: "parse_uri ''file:///d/g'' = Some [''d'', ''g'']" "\<not> is_dir demo_host [''d'', ''g'']"
    "is_dir demo_host (butlast [''d'', ''g''])" "is_encoding_arg (JStr ''base64'')"
    "is_encoding_arg JUndefined"
    by (simp_all add: demo_eval)
  show ?thesis using hs write_read_roundtrip[OF hs] by blast
qed

theorem append_sequential_witness:
  "host_wf demo_host \<and> parse_uri ''file:///d/f'' = Some [''d'', ''f''] \<and>
   lookup demo_host [''d'', ''f''] = Some (File ''abc'' 1) \<and>
   (\<exists>h1 h2. appendFile expo demo_host ''file:///d/f'' ''x'' = Inr h1 \<and>
            appendFile expo h1 ''file:///d/f'' ''y'' = Inr h2 \<and>
            readFile expo h2 ''file:///d/f'' JUndefined = Inr ''abcxy'')"
proof -
  have hs: "host_wf demo_host" "parse_uri ''file:///d/f'' = Some [''d'', ''f'']"
    "lookup demo_host [''d'', ''f''] = Some (File ''abc'' 1)"
    by (fact demo_wf | simp add: demo_eval)+
  show ?thesis using hs append_sequential[OF hs, of "''x''" "''y''"] by simp
qed

theorem exists_after_unlink_witness:
  "unlink expo demo_host ''file:///d'' = Inr (remove_tree [''d''] demo_host) \<and>
   exists expo (remove_tree [''d''] demo_host) ''file:///d'' = Inr (JBool False)"
proof -
  have u: "unlink expo demo_host ''file:///d'' = Inr (remove_tree [''d''] demo_host)"
    by (simp add: unlink_def expo_deleteAsync_def demo_eval)
  show ?thesis using u exists_after_unlink[OF u] by simp
qed

theorem mkdir_recursive_creates_witness:
  "host_wf demo_host \<and> parse_uri ''file:///d/e/g'' = Some [''d'', ''e'', ''g''] \<and>
   \<not> list_ex (is_file demo_host) (prefixes [''d'', ''e'', ''g'']) \<and>
   (\<exists>h'. mkdir expo demo_host ''file:///d/e/g'' JUndefined = Inr h' \<and>
         is_dir h' [''d'', ''e'', ''g''] \<and> host_wf h')"
proof -
  have hs: "host_wf demo_host" "parse_uri ''file:///d/e/g'' = Some [''d'', ''e'', ''g'']"
    "\<not> list_ex (is_file demo_host) (prefixes [''d'', ''e'', ''g''])"
    by (fact demo_wf | simp add: demo_eval)+
  show ?thesis using hs mkdir_recursive_creates[OF hs] by blast
qed

theorem mkdir_nonrecursive_fails_witness:
  "parse_uri ''file:///d/e/g'' = Some [''d'', ''e'', ''g''] \<and>
   lookup demo_host (butlast [''d'', ''e'', ''g'']) = None \<and>
   (\<exists>m. mkdir expo demo_host ''file:///d/e/g'' (JObj [(''recursive'', JBool False)]) =
        Inl (Err (''Failed to create directory at '' @ ''file:///d/e/g'' @ '': '' @ m)))"
proof -
  have hs: "parse_uri ''file:///d/e/g'' = Some [''d'', ''e'', ''g'']"
    "lookup demo_host (butlast [''d'', ''e'', ''g'']) = None"
    by (simp_all add: demo_eval)
  show ?thesis using hs mkdir_nonrecursive_fails[OF hs] by blast
qed

theorem readdir_after_writes_witness:
  "list_all good_seg ([''e''] @ [''a.txt'', ''b.txt'']) \<and> ''a.txt'' \<noteq> ''b.txt'' \<and>
   is_dir demo_host [''e''] \<and> children demo_host [''e''] = [] \<and>
   (\<exists>h1 h2. writeFile expo demo_host (print_uri ([''e''] @ [''a.txt''])) ''1'' JUndefined = Inr h1 \<and>
            writeFile expo h1 (print_uri ([''e''] @ [''b.txt''])) ''2'' JUndefined = Inr h2 \<and>
            (\<exists>ns. readdir expo h2 (print_uri [''e'']) = Inr ns \<and> mset ns = {#''a.txt'', ''b.txt''#}))"
proof -
  have hs: "list_all good_seg ([''e''] @ [''a.txt'', ''b.txt''])" "''a.txt'' \<noteq> ''b.txt''"
    "is_dir demo_host [''e'']" "children demo_host [''e''] = []"
    by (simp_all add: demo_eval good_seg_def children_def)
  show ?thesis using hs readdir_after_writes[OF hs] by blast
qed

theorem stat_after_write_witness:
  "is_encoding_arg JUndefined \<and>
   writeFile expo demo_host ''file:///d/g'' ''hello'' JUndefined =
     Inr (tick (put_node [''d'', ''g''] (File ''hello'' 2) demo_host)) \<and>
   stat expo (tick (put_node [''d'', ''g''] (File ''hello'' 2) demo_host)) ''file:///d/g'' =
     Inr \<lparr>st_isFile = JUndefined, st_isDirectory = JBool False,
          st_size = JNum 5, st_modificationTime = JNum 2\<rparr>"
proof -
  have e: "is_encoding_arg JUndefined" by simp
  have w: "writeFile expo demo_host ''file:///d/g'' ''hello'' JUndefined =
     Inr (tick (put_node [''d'', ''g''] (File ''hello'' 2) demo_host))"
    by (simp add: writeFile_utf8 expo_writeAsStringAsync_def demo_eval)
  have "clock demo_host = 2" by (simp add: demo_host_def)
  then show ?thesis using e w stat_after_write[OF e w] by simp
qed

theorem stat_missing_resolves_witness:
  "parse_uri ''file:///d/zz'' = Some [''d'', ''zz''] \<and> lookup demo_host [''d'', ''zz''] = None \<and>
   stat expo demo_host ''file:///d/zz'' =
     Inr \<lparr>st_isFile = JUndefined, st_isDirectory = JBool False,
          st_size = JUndefined, st_modificationTime = JUndefined\<rparr>"
proof -
  have hs: "parse_uri ''file:///d/zz'' = Some [''d'', ''zz'']" "lookup demo_host [''d'', ''zz''] = None"
    by (simp_all add: demo_eval)
  show ?thesis using hs stat_missing_resolves[OF hs] by blast
qed

theorem copyFile_grafts_witness:
  "host_wf demo_host \<and>
   copyFile expo demo_host ''file:///d'' ''file:///c'' = Inr (copy_tree [''d''] [''c''] demo_host) \<and>
   parse_uri ''file:///d'' = Some [''d''] \<and> parse_uri ''file:///c'' = Some [''c''] \<and>
   lookup (copy_tree [''d''] [''c''] demo_host) [''c'', ''f''] = Some (File ''abc'' 1)"
proof -
  have hs: "host_wf demo_host"
    "copyFile expo demo_host ''file:///d'' ''file:///c'' = Inr (copy_tree [''d''] [''c''] demo_host)"
    "parse_uri ''file:///d'' = Some [''d'']" "parse_uri ''file:///c'' = Some [''c'']"
    by (fact demo_wf | simp add: copyFile_def expo_copyAsync_def transfer_check_def demo_eval)+
  have "lookup demo_host [''d'', ''f''] = Some (File ''abc'' 1)" by (simp add: demo_eval)
  then show ?thesis using hs copyFile_grafts[OF hs, of "[''c'', ''f'']"] by simp
qed

theorem rename_moves_witness:
  "host_wf demo_host \<and>
   rename expo demo_host ''file:///d'' ''file:///c'' = Inr (move_tree [''d''] [''c''] demo_host) \<and>
   parse_uri ''file:///d'' = Some [''d''] \<and> parse_uri ''file:///c'' = Some [''c''] \<and>
   lookup (move_tree [''d''] [''c''] demo_host) [''c'', ''f''] = Some (File ''abc'' 1) \<and>
   lookup (move_tree [''d''] [''c''] demo_host) [''d'', ''f''] = None"
proof -
  have hs: "host_wf demo_host"
    "rename expo demo_host ''file:///d'' ''file:///c'' = Inr (move_tree [''d''] [''c''] demo_host)"
    "parse_uri ''file:///d'' = Some [''d'']" "parse_uri ''file:///c'' = Some [''c'']"
    by (fact demo_wf | simp add: rename_def expo_moveAsync_def transfer_check_def demo_eval)+
  have "lookup demo_host [''d'', ''f''] = Some (File ''abc'' 1)" by (simp add: demo_eval)
  then show ?thesis
    using hs rename_moves[OF hs, of "[''c'', ''f'']"] rename_moves[OF hs, of "[''d'', ''f'']"] by simp
qed

theorem exists_never_rejects_witness:
  "expo_getInfoAsync demo_host ''x'' False = Inl (unsupported ''x'') \<and>
   (\<exists>v. exists expo demo_host ''x'' = Inr v) \<and> exists expo demo_host ''x'' = Inr (JBool False)"
proof -
  have g: "getInfoAsync expo demo_host ''x'' False = Inl (unsupported ''x'')"
    by (simp add: expo_getInfoAsync_def parse_uri_def file_scheme_def)
  show ?thesis using g exists_never_rejects[of expo demo_host "''x''" "unsupported ''x''"] by simp
qed

theorem host_rejection_wrapped_witness:
  "readFile expo demo_host ''x'' JUndefined =
     Inl (Err (''Failed to read file at '' @ ''x'' @ '': '' @ message (unsupported ''x''))) \<and>
   writeFile expo demo_host ''x'' ''d'' JUndefined =
     Inl (Err (''Failed to write file at '' @ ''x'' @ '': '' @ message (unsupported ''x''))) \<and>
   appendFile expo demo_host ''x'' ''d'' =
     Inl (Err (''Failed to append file at '' @ ''x'' @ '': Failed to read file at '' @ ''x'' @ '': ''
               @ message (unsupported ''x''))) \<and>
   unlink expo demo_host ''x'' =
     Inl (Err (''Failed to delete file at '' @ ''x'' @ '': '' @ message (unsupported ''x''))) \<and>
   rename expo demo_host ''x'' ''y'' =
     Inl (Err (''Failed to rename file from '' @ ''x'' @ '' to '' @ ''y'' @ '': '' @ message (unsupported ''x''))) \<and>
   mkdir expo demo_host ''x'' JUndefined =
     Inl (Err (''Failed to create directory at '' @ ''x'' @ '': '' @ message (unsupported ''x''))) \<and>
   readdir expo demo_host ''x'' =
     Inl (Err (''Failed to read directory at '' @ ''x'' @ '': '' @ message (unsupported ''x''))) \<and>
   stat expo demo_host ''x'' =
     Inl (Err (''Failed to retrieve stats for '' @ ''x'' @ '': '' @ message (unsupported ''x''))) \<and>
   copyFile expo demo_host ''x'' ''y'' =
     Inl (Err (''Failed to copy file from '' @ ''x'' @ '' to '' @ ''y'' @ '': '' @ message (unsupported ''x'')))"
proof -
  have nx: "parse_uri ''x'' = None" by (simp add: parse_uri_def file_scheme_def)
  have hs: "readAsStringAsync expo demo_host ''x'' UTF8 = Inl (unsupported ''x'')"
    "writeAsStringAsync expo demo_host ''x'' ''d'' UTF8 = Inl (unsupported ''x'')"
    "deleteAsync expo demo_host ''x'' = Inl (unsupported ''x'')"
    "moveAsync expo demo_host ''x'' ''y'' = Inl (unsupported ''x'')"
    "makeDirectoryAsync expo demo_host ''x'' (JBool True) = Inl (unsupported ''x'')"
    "readDirectoryAsync expo demo_host ''x'' = Inl (unsupported ''x'')"
    "getInfoAsync expo demo_host ''x'' True = Inl (unsupported ''x'')"
    "copyAsync expo demo_host ''x'' ''y'' = Inl (unsupported ''x'')"
    using nx by (simp_all add: expo_readAsStringAsync_def expo_writeAsStringAsync_def
        expo_deleteAsync_def expo_moveAsync_def expo_makeDirectoryAsync_def
        expo_readDirectoryAsync_def expo_getInfoAsync_def expo_copyAsync_def)
  have "is_encoding_arg JUndefined" by simp
  from host_rejection_wrapped[OF this, of expo demo_host "''x''" "unsupported ''x''" "''d''" "''y''"] hs
  show ?thesis by blast
qed

end
