(* ===== verification/Concurrency_Expo.thy ===== *)
theory Concurrency_Expo
  imports Concurrency Facade_Expo
begin

text \<open>
  Two callers appending to the same existing file on the expo host, their
  host calls interleaved in every possible order. The invariant
  \<open>two_appends_inv\<close> lists, for each pair of caller positions, the text the file
  can hold; it shows that neither caller ever fails and that, once both have
  finished, the file holds the old text followed by both appends in either
  order, or by only one of them: the other append is lost while both callers
  are told they succeeded.
\<close>

definition file_text :: "host \<Rightarrow> fpath \<Rightarrow> string option" where
  "file_text h p = (case lookup h p of Some (File x t) \<Rightarrow> Some x | _ \<Rightarrow> None)"

definition appender :: "string \<Rightarrow> string \<Rightarrow> append_proc" where
  "appender path d = \<lparr>ap_path = path, ap_data = d, ap_pc = Reading\<rparr>"

fun two_appends_inv :: "string \<Rightarrow> string \<Rightarrow> string \<Rightarrow> string \<Rightarrow> append_pc \<Rightarrow> append_pc \<Rightarrow> bool" where
  "two_appends_inv c a b x Reading Reading = (x = c)"
| "two_appends_inv c a b x (Writing y) Reading = (y = c \<and> x = c)"
| "two_appends_inv c a b x Reading (Writing z) = (z = c \<and> x = c)"
| "two_appends_inv c a b x (Writing y) (Writing z) = (y = c \<and> z = c \<and> x = c)"
| "two_appends_inv c a b x Done Reading = (x = c @ a)"
| "two_appends_inv c a b x Done (Writing z) = (x = c @ a \<and> (z = c \<or> z = c @ a))"
| "two_appends_inv c a b x Reading Done = (x = c @ b)"
| "two_appends_inv c a b x (Writing y) Done = (x = c @ b \<and> (y = c \<or> y = c @ b))"
| "two_appends_inv c a b x Done Done = (x = c @ a @ b \<or> x = c @ b \<or> x = c @ b @ a \<or> x = c @ a)"
| "two_appends_inv c a b x _ _ = False"

definition two_inv :: "string \<Rightarrow> fpath \<Rightarrow> string \<Rightarrow> string \<Rightarrow> string \<Rightarrow> host \<times> append_proc list \<Rightarrow> bool" where
  "two_inv path p c a b s \<longleftrightarrow>
     (case snd s of
        [A, B] \<Rightarrow>
          ap_path A = path \<and> ap_data A = a \<and> ap_path B = path \<and> ap_data B = b \<and>
          is_dir (fst s) (butlast p) \<and>
          (case file_text (fst s) p of
             Some x \<Rightarrow> two_appends_inv c a b x (ap_pc A) (ap_pc B)
           | None \<Rightarrow> False)
      | _ \<Rightarrow> False)"

lemma file_text_nonroot: "file_text h p = Some x \<Longrightarrow> p \<noteq> []"
  by (auto simp: file_text_def lookup_def)

lemma file_text_Some: "file_text h p = Some x \<longleftrightarrow> (\<exists>t. lookup h p = Some (File x t))"
  by (auto simp: file_text_def split: option.split node.split)

lemma file_text_write:
  "p \<noteq> [] \<Longrightarrow> file_text (tick (put_node p (File d k) h)) p = Some d"
  by (simp add: file_text_def lookup_put_node)

lemma is_dir_write_parent:
  assumes "p \<noteq> []"
  shows "is_dir (put_node p (File d k) h) (butlast p) = is_dir h (butlast p)"
proof -
  have "butlast p \<noteq> p" using assms by (cases p rule: rev_cases) auto
  with assms show ?thesis by (simp add: is_dir_def lookup_put_node)
qed

lemma step_expo_Reading:
  assumes "parse_uri (ap_path pr) = Some p" and "file_text h p = Some x" and "ap_pc pr = Reading"
  shows "append_proc_step expo h pr = Some (h, Writing x)"
  using assms readFile_expo_file[of JUndefined "ap_path pr" p h x]
  by (auto simp: append_proc_step_Reading file_text_Some)

lemma step_expo_Writing:
  assumes "parse_uri (ap_path pr) = Some p" and "file_text h p = Some x" and "is_dir h (butlast p)"
    and "ap_pc pr = Writing y"
  shows "append_proc_step expo h pr = Some (tick (put_node p (File (y @ ap_data pr) (clock h)) h), Done)"
proof -
  have "\<not> is_dir h p" using assms(2) by (auto simp: file_text_Some is_dir_def)
  with assms show ?thesis by (simp add: append_proc_step_Writing writeFile_expo)
qed

lemma step_Some_pc:
  "append_proc_step F h q = Some r \<Longrightarrow> ap_pc q = Reading \<or> (\<exists>y. ap_pc q = Writing y)"
  by (cases "ap_pc q") (auto simp: append_proc_step_final)

lemma inv_read_first: "two_appends_inv c a b x Reading pb \<Longrightarrow> two_appends_inv c a b x (Writing x) pb"
  by (cases pb) auto

lemma inv_write_first: "two_appends_inv c a b x (Writing y) pb \<Longrightarrow> two_appends_inv c a b (y @ a) Done pb"
  by (cases pb) auto

lemma inv_read_second: "two_appends_inv c a b x pa Reading \<Longrightarrow> two_appends_inv c a b x pa (Writing x)"
  by (cases pa) auto

lemma inv_write_second: "two_appends_inv c a b x pa (Writing z) \<Longrightarrow> two_appends_inv c a b (z @ b) pa Done"
  by (cases pa) auto

lemma two_inv_step:
  assumes p: "parse_uri path = Some p" and inv: "two_inv path p c a b s" and mv: "append_move expo s s'"
  shows "two_inv path p c a b s'"
  using mv
proof (cases rule: append_move.cases)
  case (move i ps h h' pc)
  from inv move(1) obtain A B x where ps: "ps = [A, B]" and A: "ap_path A = path" "ap_data A = a"
    and B: "ap_path B = path" "ap_data B = b" and par: "is_dir h (butlast p)"
    and x: "file_text h p = Some x" and ab: "two_appends_inv c a b x (ap_pc A) (ap_pc B)"
    by (auto simp: two_inv_def split: list.splits option.splits)
  have ne: "p \<noteq> []" using x by (rule file_text_nonroot)
  from move(3) ps have i: "i = 0 \<or> i = 1" by auto
  then show ?thesis
  proof
    assume i0: "i = 0"
    with move(4) ps have st: "append_proc_step expo h A = Some (h', pc)" by simp
    from step_Some_pc[OF st] show ?thesis
    proof (elim disjE exE)
      assume r: "ap_pc A = Reading"
      with st step_expo_Reading[of A p h x] p A x have "h' = h" "pc = Writing x" by simp_all
      with move(2) ps i0 A B par x inv_read_first[of c a b x "ap_pc B"] ab r show ?thesis
        by (simp add: two_inv_def)
    next
      fix y assume w: "ap_pc A = Writing y"
      with st step_expo_Writing[of A p h x y] p A x par
      have "h' = tick (put_node p (File (y @ a) (clock h)) h)" "pc = Done" by simp_all
      with move(2) ps i0 A B par ne inv_write_first[of c a b x y "ap_pc B"] ab w show ?thesis
        by (simp add: two_inv_def file_text_write is_dir_write_parent)
    qed
  next
    assume i1: "i = 1"
    with move(4) ps have st: "append_proc_step expo h B = Some (h', pc)" by simp
    from step_Some_pc[OF st] show ?thesis
    proof (elim disjE exE)
      assume r: "ap_pc B = Reading"
      with st step_expo_Reading[of B p h x] p B x have "h' = h" "pc = Writing x" by simp_all
      with move(2) ps i1 A B par x inv_read_second[of c a b x "ap_pc A"] ab r show ?thesis
        by (simp add: two_inv_def)
    next
      fix z assume w: "ap_pc B = Writing z"
      with st step_expo_Writing[of B p h x z] p B x par
      have "h' = tick (put_node p (File (z @ b) (clock h)) h)" "pc = Done" by simp_all
      with move(2) ps i1 A B par ne inv_write_second[of c a b x "ap_pc A" z] ab w show ?thesis
        by (simp add: two_inv_def file_text_write is_dir_write_parent)
    qed
  qed
qed

lemma two_inv_reach:
  assumes "parse_uri path = Some p" and "(append_move expo)\<^sup>*\<^sup>* s s'" and "two_inv path p c a b s"
  shows "two_inv path p c a b s'"
  using assms(2,3) by (induction rule: rtranclp_induct) (auto intro: two_inv_step[OF assms(1)])

lemma two_inv_start:
  assumes "lookup h p = Some (File c t)" and "is_dir h (butlast p)"
  shows "two_inv path p c a b (h, [appender path a, appender path b])"
  using assms by (simp add: two_inv_def appender_def file_text_def)

lemma two_appends_inv_no_failure:
  "two_appends_inv c a b x pa pb \<Longrightarrow> pa \<noteq> Failed e \<and> pb \<noteq> Failed e"
  by (cases pa; cases pb) auto

section \<open>Schedules\<close>

lemma move_first: "append_proc_step F h A = Some (h', pc) \<Longrightarrow> append_move F (h, [A, B]) (h', [A\<lparr>ap_pc := pc\<rparr>, B])"
  using append_move.move[of 0 "[A, B]" F h h' pc] by simp

lemma move_second: "append_proc_step F h B = Some (h', pc) \<Longrightarrow> append_move F (h, [A, B]) (h', [A, B\<lparr>ap_pc := pc\<rparr>])"
  using append_move.move[of 1 "[A, B]" F h h' pc] by simp

lemma four_moves: "R s1 s2 \<Longrightarrow> R s2 s3 \<Longrightarrow> R s3 s4 \<Longrightarrow> R s4 s5 \<Longrightarrow> R\<^sup>*\<^sup>* s1 s5"
  by (meson converse_rtranclp_into_rtranclp r_into_rtranclp)

lemmas expo_steps = step_expo_Reading step_expo_Writing

lemma two_appends_reach_each:
  assumes p: "parse_uri path = Some p" and c: "file_text h p = Some c" and par: "is_dir h (butlast p)"
    and x: "x = c @ a @ b \<or> x = c @ b \<or> x = c @ b @ a \<or> x = c @ a"
  shows "\<exists>h'. (append_move expo)\<^sup>*\<^sup>* (h, [appender path a, appender path b])
                (h', [(appender path a)\<lparr>ap_pc := Done\<rparr>, (appender path b)\<lparr>ap_pc := Done\<rparr>]) \<and>
             file_text h' p = Some x"
proof -
  have ne: "p \<noteq> []" using c by (rule file_text_nonroot)
  let ?A = "appender path a" and ?B = "appender path b"
  let ?w = "\<lambda>h y. tick (put_node p (File y (clock h)) h)"
  have wt: "file_text (?w h' y) p = Some y" for h' y using ne by (rule file_text_write)
  have rA: "append_move expo (h', [?A, B]) (h', [?A\<lparr>ap_pc := Writing y\<rparr>, B])"
    if "file_text h' p = Some y" for h' y B
    using that p by (intro move_first expo_steps) (simp_all add: appender_def)
  have rB: "append_move expo (h', [A, ?B]) (h', [A, ?B\<lparr>ap_pc := Writing y\<rparr>])"
    if "file_text h' p = Some y" for h' y A
    using that p by (intro move_second expo_steps) (simp_all add: appender_def)
  have wA: "append_move expo (h', [?A\<lparr>ap_pc := Writing y\<rparr>, B]) (?w h' (y @ a), [?A\<lparr>ap_pc := Done\<rparr>, B])"
    if "file_text h' p = Some z" "is_dir h' (butlast p)" for h' y z B
    using that p move_first[OF step_expo_Writing[of "?A\<lparr>ap_pc := Writing y\<rparr>" p h' z y]]
    by (simp add: appender_def)
  have wB: "append_move expo (h', [A, ?B\<lparr>ap_pc := Writing y\<rparr>]) (?w h' (y @ b), [A, ?B\<lparr>ap_pc := Done\<rparr>])"
    if "file_text h' p = Some z" "is_dir h' (butlast p)" for h' y z A
    using that p move_second[OF step_expo_Writing[of "?B\<lparr>ap_pc := Writing y\<rparr>" p h' z y]]
    by (simp add: appender_def)
  let ?D = "\<lambda>q. q\<lparr>ap_pc := Done\<rparr>"
  let ?W = "\<lambda>q y. q\<lparr>ap_pc := Writing y\<rparr>"
  have s1: "(append_move expo)\<^sup>*\<^sup>* (h, [?A, ?B]) (?w (?w h (c @ a)) ((c @ a) @ b), [?D ?A, ?D ?B])"
  proof (rule four_moves)
    show "append_move expo (h, [?A, ?B]) (h, [?W ?A c, ?B])" by (rule rA[OF c])
    show "append_move expo (h, [?W ?A c, ?B]) (?w h (c @ a), [?D ?A, ?B])" by (rule wA[OF c par])
    show "append_move expo (?w h (c @ a), [?D ?A, ?B]) (?w h (c @ a), [?D ?A, ?W ?B (c @ a)])" by (rule rB[OF wt])
    show "append_move expo (?w h (c @ a), [?D ?A, ?W ?B (c @ a)]) (?w (?w h (c @ a)) ((c @ a) @ b), [?D ?A, ?D ?B])"
      by (rule wB[OF wt]) (simp add: is_dir_write_parent ne par)
  qed
  have s2: "(append_move expo)\<^sup>*\<^sup>* (h, [?A, ?B]) (?w (?w h (c @ a)) (c @ b), [?D ?A, ?D ?B])"
  proof (rule four_moves)
    show "append_move expo (h, [?A, ?B]) (h, [?W ?A c, ?B])" by (rule rA[OF c])
    show "append_move expo (h, [?W ?A c, ?B]) (h, [?W ?A c, ?W ?B c])" by (rule rB[OF c])
    show "append_move expo (h, [?W ?A c, ?W ?B c]) (?w h (c @ a), [?D ?A, ?W ?B c])" by (rule wA[OF c par])
    show "append_move expo (?w h (c @ a), [?D ?A, ?W ?B c]) (?w (?w h (c @ a)) (c @ b), [?D ?A, ?D ?B])"
      by (rule wB[OF wt]) (simp add: is_dir_write_parent ne par)
  qed
  have s3: "(append_move expo)\<^sup>*\<^sup>* (h, [?A, ?B]) (?w (?w h (c @ b)) ((c @ b) @ a), [?D ?A, ?D ?B])"
  proof (rule four_moves)
    show "append_move expo (h, [?A, ?B]) (h, [?A, ?W ?B c])" by (rule rB[OF c])
    show "append_move expo (h, [?A, ?W ?B c]) (?w h (c @ b), [?A, ?D ?B])" by (rule wB[OF c par])
    show "append_move expo (?w h (c @ b), [?A, ?D ?B]) (?w h (c @ b), [?W ?A (c @ b), ?D ?B])" by (rule rA[OF wt])
    show "append_move expo (?w h (c @ b), [?W ?A (c @ b), ?D ?B]) (?w (?w h (c @ b)) ((c @ b) @ a), [?D ?A, ?D ?B])"
      by (rule wA[OF wt]) (simp add: is_dir_write_parent ne par)
  qed
  have s4: "(append_move expo)\<^sup>*\<^sup>* (h, [?A, ?B]) (?w (?w h (c @ b)) (c @ a), [?D ?A, ?D ?B])"
  proof (rule four_moves)
    show "append_move expo (h, [?A, ?B]) (h, [?W ?A c, ?B])" by (rule rA[OF c])
    show "append_move expo (h, [?W ?A c, ?B]) (h, [?W ?A c, ?W ?B c])" by (rule rB[OF c])
    show "append_move expo (h, [?W ?A c, ?W ?B c]) (?w h (c @ b), [?W ?A c, ?D ?B])" by (rule wB[OF c par])
    show "append_move expo (?w h (c @ b), [?W ?A c, ?D ?B]) (?w (?w h (c @ b)) (c @ a), [?D ?A, ?D ?B])"
      by (rule wA[OF wt]) (simp add: is_dir_write_parent ne par)
  qed
  from x show ?thesis
  proof (elim disjE)
    assume "x = c @ a @ b"
    with s1 show ?thesis by (intro exI[of _ "?w (?w h (c @ a)) ((c @ a) @ b)"]) (simp add: file_text_write ne)
  next
    assume "x = c @ b"
    with s2 show ?thesis by (intro exI[of _ "?w (?w h (c @ a)) (c @ b)"]) (simp add: file_text_write ne)
  next
    assume "x = c @ b @ a"
    with s3 show ?thesis by (intro exI[of _ "?w (?w h (c @ b)) ((c @ b) @ a)"]) (simp add: file_text_write ne)
  next
    assume "x = c @ a"
    with s4 show ?thesis by (intro exI[of _ "?w (?w h (c @ b)) (c @ a)"]) (simp add: file_text_write ne)
  qed
qed

section \<open>What two overlapping appends can do\<close>

text \<open>C10: two callers append \<open>a\<close> and \<open>b\<close> to the same file holding \<open>c\<close>. The
  texts the file can hold once both have finished are exactly \<open>c @ a @ b\<close>,
  \<open>c @ b @ a\<close>, \<open>c @ a\<close> and \<open>c @ b\<close>: in the last two one append is lost.\<close>

theorem two_appends_outcomes:
  assumes "parse_uri path = Some p" and "lookup h p = Some (File c t)" and "is_dir h (butlast p)"
  shows "(\<exists>h'. (append_move expo)\<^sup>*\<^sup>* (h, [appender path a, appender path b])
                 (h', [(appender path a)\<lparr>ap_pc := Done\<rparr>, (appender path b)\<lparr>ap_pc := Done\<rparr>]) \<and>
              file_text h' p = Some x) \<longleftrightarrow>
         x = c @ a @ b \<or> x = c @ b @ a \<or> x = c @ a \<or> x = c @ b"
proof
  assume "\<exists>h'. (append_move expo)\<^sup>*\<^sup>* (h, [appender path a, appender path b])
                 (h', [(appender path a)\<lparr>ap_pc := Done\<rparr>, (appender path b)\<lparr>ap_pc := Done\<rparr>]) \<and>
              file_text h' p = Some x"
  then obtain h' where run: "(append_move expo)\<^sup>*\<^sup>* (h, [appender path a, appender path b])
                 (h', [(appender path a)\<lparr>ap_pc := Done\<rparr>, (appender path b)\<lparr>ap_pc := Done\<rparr>])"
    and x: "file_text h' p = Some x" by blast
  have "two_inv path p c a b (h', [(appender path a)\<lparr>ap_pc := Done\<rparr>, (appender path b)\<lparr>ap_pc := Done\<rparr>])"
    using two_inv_reach[OF assms(1) run two_inv_start[OF assms(2,3)]] .
  with x show "x = c @ a @ b \<or> x = c @ b @ a \<or> x = c @ a \<or> x = c @ b"
    by (auto simp: two_inv_def)
next
  assume "x = c @ a @ b \<or> x = c @ b @ a \<or> x = c @ a \<or> x = c @ b"
  moreover have "file_text h p = Some c" using assms(2) by (simp add: file_text_def)
  ultimately show "\<exists>h'. (append_move expo)\<^sup>*\<^sup>* (h, [appender path a, appender path b])
                 (h', [(appender path a)\<lparr>ap_pc := Done\<rparr>, (appender path b)\<lparr>ap_pc := Done\<rparr>]) \<and>
              file_text h' p = Some x"
    using two_appends_reach_each[OF assms(1) _ assms(3)] by blast
qed

text \<open>C11: in every interleaving neither caller fails and the file stays a file:
  a lost update is never reported to either caller.\<close>

theorem two_appends_never_fail:
  assumes "parse_uri path = Some p" and "lookup h p = Some (File c t)" and "is_dir h (butlast p)"
    and "(append_move expo)\<^sup>*\<^sup>* (h, [appender path a, appender path b]) (h', ps)"
  shows "(\<forall>q\<in>set ps. \<forall>e. ap_pc q \<noteq> Failed e) \<and> (\<exists>x. file_text h' p = Some x)"
proof -
  have "two_inv path p c a b (h', ps)"
    using two_inv_reach[OF assms(1) assms(4) two_inv_start[OF assms(2,3)]] .
  then show ?thesis
    by (auto simp: two_inv_def dest: two_appends_inv_no_failure split: list.splits option.splits)
qed

section \<open>Witnesses at the demonstration store\<close>

lemma demo_facts:
  "parse_uri ''file:///d/f'' = Some [''d'', ''f'']"
  "lookup demo_host [''d'', ''f''] = Some (File ''abc'' 1)"
  "is_dir demo_host (butlast [''d'', ''f''])"
  "file_text demo_host [''d'', ''f''] = Some ''abc''"
  by (simp_all add: demo_eval file_text_def)

theorem two_appends_outcomes_witness:
  "\<exists>h'. (append_move expo)\<^sup>*\<^sup>* (demo_host, [appender ''file:///d/f'' ''X'', appender ''file:///d/f'' ''Y''])
          (h', [(appender ''file:///d/f'' ''X'')\<lparr>ap_pc := Done\<rparr>, (appender ''file:///d/f'' ''Y'')\<lparr>ap_pc := Done\<rparr>]) \<and>
        file_text h' [''d'', ''f''] = Some ''abcY''"
  using two_appends_outcomes[OF demo_facts(1-3), where a = "''X''" and b = "''Y''" and x = "''abcY''"]
  by simp

theorem two_appends_never_fail_witness:
  "\<exists>h'. (append_move expo)\<^sup>*\<^sup>* (demo_host, [appender ''file:///d/f'' ''X'', appender ''file:///d/f'' ''Y''])
          (h', [(appender ''file:///d/f'' ''X'')\<lparr>ap_pc := Writing ''abc''\<rparr>, appender ''file:///d/f'' ''Y'']) \<and>
        (\<forall>q\<in>set [(appender ''file:///d/f'' ''X'')\<lparr>ap_pc := Writing ''abc''\<rparr>, appender ''file:///d/f'' ''Y''].
            \<forall>e. ap_pc q \<noteq> Failed e) \<and>
        (\<exists>x. file_text h' [''d'', ''f''] = Some x)"
proof -
  have "append_move expo (demo_host, [appender ''file:///d/f'' ''X'', appender ''file:///d/f'' ''Y''])
      (demo_host, [(appender ''file:///d/f'' ''X'')\<lparr>ap_pc := Writing ''abc''\<rparr>, appender ''file:///d/f'' ''Y''])"
    by (rule move_first, rule step_expo_Reading[OF _ demo_facts(4)]) (simp_all add: appender_def demo_facts)
  then have run: "(append_move expo)\<^sup>*\<^sup>* (demo_host, [appender ''file:///d/f'' ''X'', appender ''file:///d/f'' ''Y''])
      (demo_host, [(appender ''file:///d/f'' ''X'')\<lparr>ap_pc := Writing ''abc''\<rparr>, appender ''file:///d/f'' ''Y''])"
    by (rule r_into_rtranclp)
  show ?thesis using run two_appends_never_fail[OF demo_facts(1-3) run] by blast
qed

end
