(* ===== verification/Event_Loop.thy ===== *)
theory Event_Loop
  imports Facade
begin

text \<open>
  The two synchronous-looking methods of \<^verbatim>\<open>src/fs.js\<close>, \<open>existsSync\<close>
  (lines 160-168) and \<open>readFileSync\<close> (lines 176-186). Each declares a local
  variable, starts a host call, attaches \<open>.then\<close>/\<open>.catch\<close> callbacks and
  returns the variable. JavaScript runs a promise callback only after the
  current synchronous code has finished, so the model makes the runtime explicit:
  a world holds the host state, the closure variables the callbacks write
  (\<open>cells\<close>), the queue of pending host calls with their callbacks (\<open>jobs\<close>),
  and the rejections no handler catches (\<open>unhandled\<close>). A method returns after
  its synchronous part; \<open>drain\<close> later runs the queued jobs in order, each
  performing its host call on the host state of that moment and running the
  callback it chose.
\<close>

datatype job =
    InfoJob nat string
  | ReadJob nat string encoding_type

record 'h js_world =
  host_st :: "'h"
  cells :: "jsval list"
  jobs :: "job list"
  unhandled :: "exn list"

text \<open>
  \<open>let exists = false; FileSystem.getInfoAsync(path).then(...).catch(...); return exists;\<close>
\<close>

definition existsSync :: "'h FileSystem \<Rightarrow> 'h js_world \<Rightarrow> string \<Rightarrow> (exn + jsval) \<times> 'h js_world" where
  "existsSync F w path =
     (let c = length (cells w);
          w1 = w\<lparr>cells := cells w @ [JBool False]\<rparr>;
          w2 = w1\<lparr>jobs := jobs w1 @ [InfoJob c path]\<rparr>
      in (Inr (cells w2 ! c), w2))"

text \<open>
  \<open>let content = ''; FileSystem.readAsStringAsync(path, {encoding: ...}).then(...).catch(...); return content;\<close>
  The encoding is resolved while the call's arguments are evaluated, outside any
  \<open>try\<close>: a \<open>TypeError\<close> there is thrown to the caller as it is.
\<close>

definition readFileSync :: "'h FileSystem \<Rightarrow> 'h js_world \<Rightarrow> string \<Rightarrow> jsval \<Rightarrow> (exn + jsval) \<times> 'h js_world" where
  "readFileSync F w path encoding =
     (let c = length (cells w);
          w1 = w\<lparr>cells := cells w @ [JStr []]\<rparr>
      in case resolve_encoding (default_param encoding (JStr ''utf8'')) of
           Inl e \<Rightarrow> (Inl e, w1)
         | Inr enc \<Rightarrow>
             (let w2 = w1\<lparr>jobs := jobs w1 @ [ReadJob c path enc]\<rparr>
              in (Inr (cells w2 ! c), w2)))"

text \<open>
  One host call completing and its callback running: \<open>info => { exists = info.exists; }\<close>
  or \<open>() => { exists = false; }\<close>; \<open>data => { content = data; }\<close> or
  \<open>(error) => { throw new Error(...) }\<close>, whose exception rejects the promise
  that \<open>.catch\<close> returned, which nothing handles.
\<close>

fun run_job :: "'h FileSystem \<Rightarrow> 'h js_world \<Rightarrow> job \<Rightarrow> 'h js_world" where
  "run_job F w (InfoJob c path) =
     (case getInfoAsync F (host_st w) path False of
        Inl _ \<Rightarrow> w\<lparr>cells := (cells w)[c := JBool False]\<rparr>
      | Inr info \<Rightarrow> w\<lparr>cells := (cells w)[c := js_get info ''exists'']\<rparr>)"
| "run_job F w (ReadJob c path enc) =
     (case readAsStringAsync F (host_st w) path enc of
        Inr data \<Rightarrow> w\<lparr>cells := (cells w)[c := JStr data]\<rparr>
      | Inl e \<Rightarrow> w\<lparr>unhandled := unhandled w @ [Err (''Failed to read file at '' @ path @ '': '' @ message e)]\<rparr>)"

definition drain :: "'h FileSystem \<Rightarrow> 'h js_world \<Rightarrow> 'h js_world" where
  "drain F w = fold (\<lambda>j w. run_job F w j) (jobs w) (w\<lparr>jobs := []\<rparr>)"

definition world :: "'h \<Rightarrow> 'h js_world" where
  "world h = \<lparr>host_st = h, cells = [], jobs = [], unhandled = []\<rparr>"

section \<open>The runtime: jobs never change the host\<close>

lemma run_job_host [simp]: "host_st (run_job F w j) = host_st w"
  by (cases j) (simp_all split: sum.split)

lemma fold_run_job_host: "host_st (fold (\<lambda>j w. run_job F w j) js w) = host_st w"
  by (induction js arbitrary: w) simp_all

lemma drain_host [simp]: "host_st (drain F w) = host_st w"
  by (simp add: drain_def fold_run_job_host)

lemma existsSync_host [simp]: "host_st (snd (existsSync F w path)) = host_st w"
  by (simp add: existsSync_def Let_def)

lemma readFileSync_host [simp]: "host_st (snd (readFileSync F w path e)) = host_st w"
  by (simp add: readFileSync_def Let_def split: sum.split)

section \<open>What the caller sees, and what the callbacks do later\<close>

text \<open>C5: \<open>existsSync\<close> returns \<open>false\<close> for every host, host state and location: its return statement runs before the callback that would record the answer.\<close>

theorem existsSync_returns_false: "fst (existsSync F w path) = Inr (JBool False)"
  by (simp add: existsSync_def Let_def)

text \<open>The answer is computed, but only into the closure variable, after the return.\<close>

lemma existsSync_answer_later:
  assumes "jobs w = []"
  shows "cells (drain F (snd (existsSync F w path))) ! length (cells w) =
           (case exists F (host_st w) path of Inr v \<Rightarrow> v)"
  using assms
  by (simp add: existsSync_def drain_def Let_def exists_def nth_append split: sum.split)

lemma readFileSync_resolved:
  "is_encoding_arg e \<Longrightarrow>
     readFileSync F w path e =
       (Inr (JStr []), w\<lparr>cells := cells w @ [JStr []], jobs := jobs w @ [ReadJob (length (cells w)) path UTF8]\<rparr>)"
  by (simp add: readFileSync_def Let_def resolve_encoding_arg)

lemma readFileSync_content_later:
  assumes "jobs w = []" and "is_encoding_arg e" and "readFile F (host_st w) path e = Inr d"
  shows "fst (readFileSync F w path e) = Inr (JStr []) \<and>
         cells (drain F (snd (readFileSync F w path e))) ! length (cells w) = JStr d \<and>
         unhandled (drain F (snd (readFileSync F w path e))) = unhandled w"
  using assms by (simp add: readFileSync_resolved readFile_utf8 drain_def nth_append)

text \<open>C6: when the read fails, \<open>readFileSync\<close> has already returned the empty
  string; the error, with the message \<open>readFile\<close> would have rejected with, is
  thrown in a callback and ends as an unhandled rejection, which the caller
  cannot catch.\<close>

theorem readFileSync_failure_unhandled:
  assumes "jobs w = []" and "is_encoding_arg e" and "readFile F (host_st w) path e = Inl err"
  shows "fst (readFileSync F w path e) = Inr (JStr []) \<and>
         unhandled (drain F (snd (readFileSync F w path e))) = unhandled w @ [err]"
proof -
  from assms(2,3) obtain e' where "readAsStringAsync F (host_st w) path UTF8 = Inl e'"
    and "err = Err (''Failed to read file at '' @ path @ '': '' @ message e')"
    by (auto simp: readFile_utf8 rethrow_eq_Inl)
  with assms(1,2) show ?thesis by (simp add: readFileSync_resolved drain_def)
qed

text \<open>C7: with a \<open>null\<close> encoding, \<open>readFileSync\<close> throws the \<open>TypeError\<close> of
  \<open>encoding.toUpperCase()\<close> synchronously, unwrapped (unlike \<open>readFile\<close>), and
  starts no host call.\<close>

theorem readFileSync_null_encoding:
  "readFileSync F w path JNull =
     (Inl (TypeErr (''Cannot read properties of null (reading '' @ quoted ''toUpperCase'' @ '')'')),
      w\<lparr>cells := cells w @ [JStr []]\<rparr>)"
  by (simp add: readFileSync_def Let_def resolve_encoding_def)

end
