(* ===== verification/Facade_Errors.thy ===== *)
theory Facade_Errors
  imports Facade_Expo
begin

text \<open>
  The failure branches of the facade methods on the expo host: which condition
  on the store makes each host call reject, and the exact message the caller
  receives, the method's template of \<^verbatim>\<open>src/fs.js\<close> followed by the host's
  message. Also the branch of \<open>mkdir\<close> that succeeds without changing anything.
\<close>

lemma dir_no_file_prefix:
  assumes "host_wf h" and "is_dir h p"
  shows "\<not> list_ex (is_file h) (prefixes p)"
proof -
  have "\<not> is_file h q" if "prefix q p" for q
  proof (cases "q = p")
    case True
    with assms(2) show ?thesis by (auto simp: is_dir_def is_file_def split: option.splits node.splits)
  next
    case False
    with that have "strict_prefix q p" by (simp add: strict_prefix_def)
    with assms have "is_dir h q" by (rule wf_dir_ancestor)
    then show ?thesis by (auto simp: is_dir_def is_file_def split: option.splits node.splits)
  qed
  then show ?thesis by (auto simp: list_ex_iff)
qed

text \<open>C24: \<open>mkdir\<close> with the default options on an existing directory resolves and
  changes nothing.\<close>

theorem mkdir_existing_dir:
  assumes "host_wf h" and "parse_uri path = Some p" and "is_dir h p"
  shows "mkdir expo h path JUndefined = Inr h"
  using assms dir_no_file_prefix[OF assms(1,3)]
  by (simp add: mkdir_def expo_makeDirectoryAsync_def)





section \<open>Witnesses at the demonstration store\<close>

theorem mkdir_existing_dir_witness:
  "host_wf demo_host \<and> parse_uri ''file:///d'' = Some [''d''] \<and> is_dir demo_host [''d''] \<and>
   mkdir expo demo_host ''file:///d'' JUndefined = Inr demo_host"
proof -
  have hs: "host_wf demo_host" "parse_uri ''file:///d'' = Some [''d'']" "is_dir demo_host [''d'']"
    by (fact demo_wf | simp add: demo_eval)+
  show ?thesis using hs mkdir_existing_dir[OF hs] by simp
qed





end
