(* ===== verification/Spec2Isabelle.thy ===== *)
theory Spec2Isabelle
  imports Concurrency_Expo Event_Loop Facade_Errors
begin

text \<open>
  \<^bold>\<open>A verification development for \<^verbatim>\<open>src/fs.js\<close>.\<close>

  \<^bold>\<open>The program.\<close> \<^verbatim>\<open>src/fs.js\<close> exports one object \<open>fs\<close> whose methods give a
  Node-style file API on top of the \<open>expo-file-system\<close> module: \<open>readFile\<close>,
  \<open>writeFile\<close>, \<open>appendFile\<close>, \<open>unlink\<close>, \<open>exists\<close>, \<open>rename\<close>, \<open>mkdir\<close>,
  \<open>readdir\<close>, \<open>stat\<close>, \<open>copyFile\<close> (asynchronous) and \<open>existsSync\<close>,
  \<open>readFileSync\<close> (synchronous-looking). Each asynchronous method applies its
  default parameters, resolves the encoding name against the module's
  \<open>EncodingType\<close> enumeration, awaits one host call (\<open>appendFile\<close> awaits
  \<open>readFile\<close> then \<open>writeFile\<close>) and re-throws a failure as a new \<open>Error\<close>
  whose message is a fixed template followed by the caught message. The only
  shared state is the host's file store.

  \<^bold>\<open>Theories and what they model.\<close>
  \<^item> \<open>FS_Prelude\<close>: JavaScript values (\<open>jsval\<close>, objects as association lists),
    property access \<open>js_prop\<close> (a \<open>TypeError\<close> on \<open>null\<close>/\<open>undefined\<close>),
    default parameters \<open>default_param\<close>, exceptions \<open>exn\<close> as the left side of a
    sum, \<open>ebind\<close> for sequencing and \<open>rethrow\<close> for the \<open>catch\<close> blocks
    (e.g. lines 16-18); shared lemmas on association lists and path prefixes.
  \<^item> \<open>Encoding\<close>: \<open>resolve_encoding\<close> is the expression of lines 13/31/179, over
    any argument value, with \<open>js_toUpperCase\<close>/\<open>upper_char\<close> for
    \<open>toUpperCase\<close> (ASCII letters) and the host's \<open>EncodingType\<close> enumeration
    \<open>{UTF8: 'utf8', Base64: 'base64'}\<close>; also the host's base64 codec and
    its round trip (\<open>b64_decode_encode\<close>, by the arithmetic of 6-bit digits).
  \<^item> \<open>Host_Store\<close>, \<open>Host_Uri\<close>, \<open>Host_Ops\<close>: the host, which is not part of the
    repository and is modelled from its documented behaviour. The store (record
    \<open>host\<close>) maps segment paths to files (text, modification time) and
    directories, with a clock; \<open>lookup\<close> abstracts it to a partial map.
    \<open>parse_uri\<close> reads \<open>file://\<close> locations. Each call the facade makes is one
    definition \<open>expo_readAsStringAsync\<close>, \<open>expo_writeAsStringAsync\<close>,
    \<open>expo_deleteAsync\<close>, \<open>expo_getInfoAsync\<close>, \<open>expo_moveAsync\<close>,
    \<open>expo_copyAsync\<close>, \<open>expo_makeDirectoryAsync\<close>, \<open>expo_readDirectoryAsync\<close>,
    returning an exception or a result/new store. The store invariant
    \<open>host_wf\<close> (paths stored once, the root implicit, every proper ancestor of a
    stored path a directory) is kept by every call; it is a property of the host
    model, used as a hypothesis by the facade's theorems. The store operations
    (\<open>put_node\<close>, \<open>remove_tree\<close>, \<open>make_dirs\<close>, \<open>move_tree\<close>, \<open>copy_tree\<close>) each
    have a lemma giving \<open>lookup\<close> after the operation, their specification on
    maps.
  \<^item> \<open>Facade\<close>: the methods of \<open>fs\<close> (lines 10-153) as one definition each, over
    any host given as the record \<open>FileSystem\<close> of its eight calls. Its
    theorems hold for every host: the message each method rejects with when
    its host call rejects, that \<open>exists\<close> answers a rejected host call with
    \<open>false\<close>, that the encoding argument is ignored.
  \<^item> \<open>Facade_Expo\<close>: the facade on the modelled host (\<open>expo\<close>): round trip,
    appends, \<open>exists\<close>, \<open>mkdir\<close>, \<open>readdir\<close>, \<open>stat\<close>, \<open>copyFile\<close>, \<open>rename\<close>,
    with witnesses at \<open>demo_host\<close>.
  \<^item> \<open>Facade_Errors\<close>: the failure branches on the expo host with the exact
    message a caller receives (template of the method followed by the host's
    message), and \<open>mkdir\<close> on an existing directory.
  \<^item> \<open>Event_Loop\<close>: \<open>existsSync\<close> and \<open>readFileSync\<close> (lines 160-186). A world
    (record \<open>js_world\<close>) holds the host state, the closure variables the
    callbacks assign (\<open>let exists\<close>, \<open>let content\<close>), the queue of started host
    calls with their \<open>.then\<close>/\<open>.catch\<close> callbacks (\<open>job\<close>) and the rejections
    nothing handles. Each method is its synchronous part only, up to its
    \<open>return\<close>; \<open>drain\<close> is the event loop running the queued jobs afterwards
    (\<open>run_job\<close>: the host call on the host state of that moment, then the
    callback). This root theory relates them to \<open>exists\<close>/\<open>readFile\<close> on the
    expo host.
  \<^item> \<open>Concurrency\<close>: callers of \<open>appendFile\<close> (lines 44-51) running at the same
    time. A caller (record \<open>append_proc\<close>) is split at its two \<open>await\<close>s:
    \<open>append_proc_step\<close> performs its next host call (the read, then the write
    of the text read followed by its data, a failure becoming the error of the
    \<open>catch\<close> block); the step relation \<open>append_move\<close> lets any unfinished caller
    take its step, which is every interleaving a single-threaded event loop can
    produce when host calls are atomic.
  \<^item> \<open>Concurrency_Expo\<close>: two callers appending to the same file on the expo
    host. The invariant \<open>two_appends_inv\<close> tabulates the file's text for each
    pair of caller positions; it gives the exact set of final texts (both
    appends in either order, or only one of them) and shows that neither caller
    is ever told of a lost update.

  \<^bold>\<open>What the lemmas show.\<close> The claims C1-C29 are stated right after the text
  blocks that name them; their theorems are in \<open>Facade_Expo\<close> (behaviour on the
  host), \<open>Facade\<close> (behaviour on any host), \<open>Facade_Errors\<close>, \<open>Event_Loop\<close>,
  \<open>Concurrency_Expo\<close>, \<open>Encoding\<close> and this theory. Among them are departures of
  the code from its spec or its intent: \<open>existsSync\<close> always returns \<open>false\<close>
  and \<open>readFileSync\<close> always returns the empty string (or throws synchronously
  on a \<open>null\<close> encoding), the read error of \<open>readFileSync\<close> becomes an unhandled
  rejection; every encoding name resolves to UTF-8 (\<open>'base64'\<close> upper-cases to
  \<open>'BASE64'\<close>, which is not a key of the enumeration); \<open>stat\<close>'s \<open>isFile()\<close>
  returns \<open>undefined\<close>; \<open>stat\<close> of a missing location does not fail;
  \<open>mkdir(p, {})\<close> is not recursive; and two overlapping \<open>appendFile\<close> calls can
  both succeed while one append is lost.

  \<^bold>\<open>Modelling choices.\<close> Host calls are atomic and a rejected call leaves the
  store unchanged. Strings are byte lists; \<open>toUpperCase\<close> is modelled on ASCII
  letters (no non-ASCII character upper-cases to a key of the enumeration, so
  resolution is not affected). \<open>expo_readDirectoryAsync\<close> has to list the names
  in some order and lists them in creation order; neither the spec nor the host
  documents an order, and no theorem depends on it (\<open>readdir_after_writes\<close>
  states the names up to order, as a multiset). No loop of the program needs
  fuel: the only recursions (path splitting, directory creation) are
  structural, and an interleaving of two \<open>appendFile\<close> callers has at most four
  moves. The promise callbacks of \<open>existsSync\<close>/\<open>readFileSync\<close> run in the
  order they were queued, after the method has returned (\<open>drain\<close>).

  \<^bold>\<open>Not modelled.\<close> The outcomes of overlapping calls are worked out only for
  two \<open>appendFile\<close> callers on one file of the expo host; overlapping calls of
  the other methods are not modelled (each awaits a single atomic host call, so
  in this model they cannot interleave with anything inside themselves). The
  host itself (\<open>expo-file-system\<close>) is not part of the repository and is
  modelled from its documented behaviour, including its base64 codec
  (\<open>b64_decode_encode\<close>), which the facade never selects. \<open>export default fs\<close>
  (line 189) has no behaviour to model.
\<close>

text \<open>C8: on the expo host, for a location where something is stored, \<open>exists\<close> answers \<open>true\<close> while \<open>existsSync\<close> returns \<open>false\<close>; the \<open>true\<close> reaches only the callback's variable, after the return.\<close>

theorem existsSync_vs_exists:
  assumes "parse_uri path = Some p" and "lookup h p \<noteq> None"
  shows "exists expo h path = Inr (JBool True) \<and>
         fst (existsSync expo (world h) path) = Inr (JBool False) \<and>
         cells (drain expo (snd (existsSync expo (world h) path))) ! 0 = JBool True"
proof -
  have ex: "exists expo h path = Inr (JBool True)"
    using assms by (auto simp: exists_def expo_getInfoAsync_def split: node.split)
  have "cells (drain expo (snd (existsSync expo (world h) path))) ! 0 = JBool True"
    using existsSync_answer_later[of "world h" expo path] ex by (simp add: world_def)
  then show ?thesis using ex by (simp add: existsSync_def world_def)
qed

text \<open>C9: on the expo host, for a stored file, \<open>readFile\<close> resolves with its
  text while \<open>readFileSync\<close> returns the empty string; the text reaches only the
  callback's variable, after the return.\<close>

theorem readFileSync_vs_readFile:
  assumes "is_encoding_arg e" and "parse_uri path = Some p" and "lookup h p = Some (File c t)"
  shows "readFile expo h path e = Inr c \<and>
         fst (readFileSync expo (world h) path e) = Inr (JStr []) \<and>
         cells (drain expo (snd (readFileSync expo (world h) path e))) ! 0 = JStr c"
proof -
  have rd: "readFile expo h path e = Inr c" using readFile_expo_file[OF assms] .
  with readFileSync_content_later[of "world h" e expo path c] assms(1)
  show ?thesis by (simp add: world_def)
qed

theorem existsSync_vs_exists_witness:
  "exists expo demo_host ''file:///d/f'' = Inr (JBool True) \<and>
   fst (existsSync expo (world demo_host) ''file:///d/f'') = Inr (JBool False) \<and>
   cells (drain expo (snd (existsSync expo (world demo_host) ''file:///d/f''))) ! 0 = JBool True"
  by (rule existsSync_vs_exists[of _ "[''d'', ''f'']"]) (simp_all add: demo_eval)

theorem readFileSync_vs_readFile_witness:
  "readFile expo demo_host ''file:///d/f'' JUndefined = Inr ''abc'' \<and>
   fst (readFileSync expo (world demo_host) ''file:///d/f'' JUndefined) = Inr (JStr []) \<and>
   cells (drain expo (snd (readFileSync expo (world demo_host) ''file:///d/f'' JUndefined))) ! 0 =
     JStr ''abc''"
  by (rule readFileSync_vs_readFile[of _ _ "[''d'', ''f'']" _ _ 1]) (simp_all add: demo_eval)

theorem readFileSync_failure_unhandled_witness:
  "readFile expo demo_host ''file:///x'' JUndefined =
     Inl (Err (''Failed to read file at file:///x: File '' @ quoted ''file:///x'' @ '' could not be read.'')) \<and>
   fst (readFileSync expo (world demo_host) ''file:///x'' JUndefined) = Inr (JStr []) \<and>
   unhandled (drain expo (snd (readFileSync expo (world demo_host) ''file:///x'' JUndefined))) =
     [Err (''Failed to read file at file:///x: File '' @ quoted ''file:///x'' @ '' could not be read.'')]"
proof -
  have r: "readFile expo demo_host ''file:///x'' JUndefined =
     Inl (Err (''Failed to read file at file:///x: File '' @ quoted ''file:///x'' @ '' could not be read.''))"
    by (simp add: readFile_utf8 expo_readAsStringAsync_def demo_eval)
  show ?thesis
    using r readFileSync_failure_unhandled[of "world demo_host" JUndefined expo "''file:///x''"
      "Err (''Failed to read file at file:///x: File '' @ quoted ''file:///x'' @ '' could not be read.'')"]
    by (simp add: world_def)
qed

end
